theory Spec2Isabelle
  imports
    Complex_Main
    "HOL-Library.AList"
    "HOL-Library.Char_ord"
    "HOL-Library.List_Lexorder"
    "HOL-Library.Multiset"
begin

section \<open>The data structure of the crosswalk package\<close>

text \<open>
  This theory embeds \<^verbatim>\<open>src/crosswalk/data.py\<close>: the class \<^verbatim>\<open>CWData\<close> with its
  constructor, \<^verbatim>\<open>check\<close> and \<^verbatim>\<open>sort_by_study_id\<close>.

  Conventions of the embedding.
  \<^item> A one-dimensional numpy array is a list; \<^verbatim>\<open>x.size\<close> and \<^verbatim>\<open>x.shape == (n,)\<close> read
    its length. An array has one element type: numeric (Python floats are modelled by the
    reals, so there is neither rounding nor NaN) or not numeric.
  \<^item> The labels are taken after \<^verbatim>\<open>astype(str)\<close>, which is the identity on an array of
    strings: \<open>alt_dorms\<close> and \<open>ref_dorms\<close> are lists of strings.
  \<^item> A Python \<^verbatim>\<open>dict\<close> is an association list in insertion order with one entry per key.
  \<^item> Every \<^verbatim>\<open>assert\<close> and every exception raised by numpy is an error value.
  \<^item> The constructor mutates the dictionary object it was given. The model returns,
    beside the object or the error, the state in which that dictionary is left.
\<close>

subsection \<open>Values\<close>

datatype error = AssertionError | ValueError | IndexError

datatype ndarray = NumArray "real list" | StrArray "string list"

datatype key = StrKey string | IntKey int

type_synonym covdict = "(key \<times> ndarray) list"

fun nd_size :: "ndarray \<Rightarrow> nat" where
  "nd_size (NumArray xs) = length xs"
| "nd_size (StrArray xs) = length xs"

text \<open>\<^verbatim>\<open>np.ones(n)\<close>.\<close>

definition ones :: "nat \<Rightarrow> ndarray" where
  "ones n = NumArray (replicate n 1)"

text \<open>
  Indexing with an array of positions, \<^verbatim>\<open>x[sort_id]\<close>: numpy raises \<^verbatim>\<open>IndexError\<close> when a
  position is out of bounds.
\<close>

definition take_ids :: "'a list \<Rightarrow> nat list \<Rightarrow> error + 'a list" where
  "take_ids xs ids =
     (if list_all (\<lambda>i. i < length xs) ids then Inr (map (\<lambda>i. xs ! i) ids)
      else Inl IndexError)"

fun nd_take :: "ndarray \<Rightarrow> nat list \<Rightarrow> error + ndarray" where
  "nd_take (NumArray xs) ids = map_sum id NumArray (take_ids xs ids)"
| "nd_take (StrArray xs) ids = map_sum id StrArray (take_ids xs ids)"

text \<open>
  \<^verbatim>\<open>np.argmax\<close> and \<^verbatim>\<open>np.argmin\<close>: the position of the first occurrence of the extremum,
  \<^verbatim>\<open>ValueError\<close> on an empty sequence. The loop keeps the best value seen and its position,
  and replaces them only by a strictly better value.
\<close>

fun arg_loop :: "(nat \<Rightarrow> nat \<Rightarrow> bool) \<Rightarrow> nat list \<Rightarrow> nat \<Rightarrow> nat \<Rightarrow> nat \<Rightarrow> nat" where
  "arg_loop better [] i best besti = besti"
| "arg_loop better (x # xs) i best besti =
     (if better x best then arg_loop better xs (Suc i) x i
      else arg_loop better xs (Suc i) best besti)"

definition argmax :: "nat list \<Rightarrow> error + nat" where
  "argmax xs = (case xs of [] \<Rightarrow> Inl ValueError | x # rest \<Rightarrow> Inr (arg_loop (\<lambda>a b. b < a) rest 1 x 0))"

definition argmin :: "nat list \<Rightarrow> error + nat" where
  "argmin xs = (case xs of [] \<Rightarrow> Inl ValueError | x # rest \<Rightarrow> Inr (arg_loop (\<lambda>a b. a < b) rest 1 x 0))"

text \<open>\<^verbatim>\<open>xs[i]\<close> for one position.\<close>

definition item :: "'a list \<Rightarrow> nat \<Rightarrow> error + 'a" where
  "item xs i = (if i < length xs then Inr (xs ! i) else Inl IndexError)"

subsection \<open>The helpers of \<^verbatim>\<open>utils\<close>\<close>

text \<open>
  Modelled from the spec: \<^verbatim>\<open>utils.array_structure\<close> is not among the sources. The spec
  (section 4.2) gives its contract: for an array of labels it returns
  \<open>(num_distinct, counts, unique_sorted)\<close>, where \<open>unique_sorted\<close> is the ascending
  sequence of the distinct labels, \<open>counts[i]\<close> the number of occurrences of
  \<open>unique_sorted[i]\<close> and \<open>num_distinct\<close> the length of \<open>unique_sorted\<close>.
\<close>

definition unique_sorted :: "'a::linorder list \<Rightarrow> 'a list" where
  "unique_sorted xs = sort (remdups xs)"

definition array_structure :: "'a::linorder list \<Rightarrow> nat \<times> nat list \<times> 'a list" where
  "array_structure xs =
     (let u = unique_sorted xs in (length u, map (count_list xs) u, u))"

fun nd_array_structure :: "ndarray \<Rightarrow> nat \<times> nat list \<times> ndarray" where
  "nd_array_structure (NumArray xs) = map_prod id (map_prod id NumArray) (array_structure xs)"
| "nd_array_structure (StrArray xs) = map_prod id (map_prod id StrArray) (array_structure xs)"

text \<open>
  Modelled from the spec: \<^verbatim>\<open>utils.is_numerical_array\<close> is not among the sources. The spec
  (section 4.3): given an array, an expected shape and an expected numeric element type,
  it returns whether the array satisfies both.
\<close>

fun is_numerical_array :: "ndarray \<Rightarrow> nat \<Rightarrow> bool" where
  "is_numerical_array (NumArray xs) n = (length xs = n)"
| "is_numerical_array (StrArray xs) n = False"

subsection \<open>\<^verbatim>\<open>CWData\<close>\<close>

text \<open>The attributes that the constructor assigns, under their names in the source.\<close>

record CWData =
  obs :: ndarray
  obs_se :: ndarray
  alt_dorms :: "string list"
  ref_dorms :: "string list"
  covs :: covdict
  study_id :: "ndarray option"
  num_obs :: nat
  num_covs :: nat
  num_dorms :: nat
  dorm_sizes :: "nat list"
  unique_dorms :: "string list"
  num_alt_dorms :: nat
  alt_dorm_sizes :: "nat list"
  unique_alt_dorms :: "string list"
  num_ref_dorms :: nat
  ref_dorm_sizes :: "nat list"
  unique_ref_dorms :: "string list"
  max_dorm :: string
  min_dorm :: string
  max_alt_dorm :: string
  min_alt_dorm :: string
  max_ref_dorm :: string
  dorm_idx :: "(string \<times> nat) list"
  num_studies :: nat
  study_sizes :: "nat list"
  unique_study_id :: "ndarray option"

text \<open>
  What a call of the constructor leaves behind: the object or the exception, the
  dictionary object passed as \<^verbatim>\<open>covs\<close> as the caller sees it afterwards (\<open>None\<close> when no
  dictionary was passed), and the warnings emitted.
\<close>

record outcome =
  result :: "error + CWData"
  caller_covs :: "covdict option"
  warnings :: "string list"

subsubsection \<open>\<^verbatim>\<open>check\<close>\<close>

fun all_positive :: "ndarray \<Rightarrow> bool" where
  "all_positive (NumArray xs) = list_all (\<lambda>x. 0 < x) xs"
| "all_positive (StrArray xs) = False"

fun is_str :: "key \<Rightarrow> bool" where
  "is_str (StrKey s) = True"
| "is_str (IntKey i) = False"

text \<open>The loop of \<^verbatim>\<open>check\<close> over the covariates: it stops at the first failing assertion.\<close>

fun check_covs :: "covdict \<Rightarrow> nat \<Rightarrow> bool" where
  "check_covs [] n = True"
| "check_covs ((cov_name, v) # rest) n =
     (if is_str cov_name then
        (if is_numerical_array v n then check_covs rest n else False)
      else False)"

text \<open>
  \<^verbatim>\<open>check\<close> reads the attributes assigned so far; they are its arguments here. The
  assertions are tried in the order of the source. The two \<^verbatim>\<open>isinstance\<close> tests on the
  label arrays and the one on the dictionary hold by the types.
\<close>

definition check ::
  "ndarray \<Rightarrow> ndarray \<Rightarrow> string list \<Rightarrow> string list \<Rightarrow> covdict \<Rightarrow> nat \<Rightarrow>
   ndarray option \<Rightarrow> nat \<Rightarrow> error + unit" where
  "check obs' obs_se' alt_dorms' ref_dorms' covs' num_covs' study_id' num_obs' =
     (if is_numerical_array obs' num_obs' then
      if is_numerical_array obs_se' num_obs' then
      if all_positive obs_se' then
      if length alt_dorms' = num_obs' then
      if length ref_dorms' = num_obs' then
      if length covs' = num_covs' then
      if check_covs covs' num_obs' then
        (case study_id' of
           None \<Rightarrow> Inr ()
         | Some s \<Rightarrow> if is_numerical_array s num_obs' then Inr () else Inl AssertionError)
      else Inl AssertionError
      else Inl AssertionError
      else Inl AssertionError
      else Inl AssertionError
      else Inl AssertionError
      else Inl AssertionError
      else Inl AssertionError)"

subsubsection \<open>\<^verbatim>\<open>sort_by_study_id\<close>\<close>

text \<open>
  \<^verbatim>\<open>np.argsort\<close> is a parameter of the model. numpy documents that it returns the
  positions that sort the array, and that its default kind, \<^verbatim>\<open>quicksort\<close>, which is the one
  the source asks for, is not stable. The predicate \<open>is_argsort\<close> is that contract.
\<close>

definition is_argsort :: "real list \<Rightarrow> nat list \<Rightarrow> bool" where
  "is_argsort xs ids =
     (mset ids = mset [0..<length xs] \<and> sorted (map (\<lambda>i. xs ! i) ids))"

text \<open>
  A sorting function that meets the contract: the stable one, which is what numpy
  returns with \<^verbatim>\<open>kind='stable'\<close>.
\<close>

definition stable_argsort :: "real list \<Rightarrow> nat list" where
  "stable_argsort xs = sort_key (\<lambda>i. xs ! i) [0..<length xs]"

fun nd_argsort :: "(real list \<Rightarrow> nat list) \<Rightarrow> ndarray \<Rightarrow> nat list" where
  "nd_argsort argsort (NumArray xs) = argsort xs"
| "nd_argsort argsort (StrArray xs) = sort_key (\<lambda>i. xs ! i) [0..<length xs]"

text \<open>
  The loop over the covariates rebinds one entry after the other; an exception leaves
  the entries already rebound in place. The result is the dictionary and the exception,
  if any.
\<close>

fun sort_covs :: "covdict \<Rightarrow> nat list \<Rightarrow> covdict \<times> error option" where
  "sort_covs [] ids = ([], None)"
| "sort_covs ((cov_name, v) # rest) ids =
     (case nd_take v ids of
        Inl e \<Rightarrow> ((cov_name, v) # rest, Some e)
      | Inr v' \<Rightarrow> (case sort_covs rest ids of (rest', r) \<Rightarrow> ((cov_name, v') # rest', r)))"

text \<open>
  The method works on the object; the result is the object as it is left and the
  exception, if any. The attributes are rebound in the order of the source.
\<close>

definition sort_by_study_id :: "(real list \<Rightarrow> nat list) \<Rightarrow> CWData \<Rightarrow> CWData \<times> error option" where
  "sort_by_study_id argsort self =
     (case study_id self of
        None \<Rightarrow> (self, None)
      | Some sid \<Rightarrow>
          (let sort_id = nd_argsort argsort sid in
           case nd_take sid sort_id of
             Inl e \<Rightarrow> (self, Some e)
           | Inr sid' \<Rightarrow>
          (let self1 = self\<lparr>study_id := Some sid'\<rparr> in
           case nd_take (obs self1) sort_id of
             Inl e \<Rightarrow> (self1, Some e)
           | Inr obs' \<Rightarrow>
          (let self2 = self1\<lparr>obs := obs'\<rparr> in
           case nd_take (obs_se self2) sort_id of
             Inl e \<Rightarrow> (self2, Some e)
           | Inr obs_se' \<Rightarrow>
          (let self3 = self2\<lparr>obs_se := obs_se'\<rparr> in
           case take_ids (alt_dorms self3) sort_id of
             Inl e \<Rightarrow> (self3, Some e)
           | Inr alt' \<Rightarrow>
          (let self4 = self3\<lparr>alt_dorms := alt'\<rparr> in
           case take_ids (ref_dorms self4) sort_id of
             Inl e \<Rightarrow> (self4, Some e)
           | Inr ref' \<Rightarrow>
          (let self5 = self4\<lparr>ref_dorms := ref'\<rparr> in
           case sort_covs (covs self5) sort_id of
             (covs', r) \<Rightarrow> (self5\<lparr>covs := covs'\<rparr>, r))))))))"

subsubsection \<open>The constructor\<close>

definition intercept :: key where
  "intercept = StrKey ''intercept''"

definition intercept_warning :: string where
  "intercept_warning = ''Covariates must at least include intercept.Adding intercept automatically.''"

text \<open>
  Lines 80 to 89: the labels of the largest and smallest groups. Each is one \<^verbatim>\<open>argmax\<close> or
  \<^verbatim>\<open>argmin\<close> and one indexing, in the order of the source; the first exception ends the
  computation. The sixth assignment of the source writes \<^verbatim>\<open>min_alt_dorm\<close> a second time,
  so the result has five components and the fourth is the value of the last write.
\<close>

definition extreme :: "(nat list \<Rightarrow> error + nat) \<Rightarrow> nat list \<Rightarrow> string list \<Rightarrow> error + string" where
  "extreme arg sizes unique = (case arg sizes of Inl e \<Rightarrow> Inl e | Inr i \<Rightarrow> item unique i)"

definition extreme_dorms ::
  "nat list \<Rightarrow> string list \<Rightarrow> nat list \<Rightarrow> string list \<Rightarrow> nat list \<Rightarrow> string list \<Rightarrow>
   error + (string \<times> string \<times> string \<times> string \<times> string)" where
  "extreme_dorms dorm_sizes' unique_dorms' alt_dorm_sizes' unique_alt_dorms'
       ref_dorm_sizes' unique_ref_dorms' =
     (case extreme argmax dorm_sizes' unique_dorms' of Inl e \<Rightarrow> Inl e | Inr max_dorm' \<Rightarrow>
     (case extreme argmin dorm_sizes' unique_dorms' of Inl e \<Rightarrow> Inl e | Inr min_dorm' \<Rightarrow>
     (case extreme argmax alt_dorm_sizes' unique_alt_dorms' of Inl e \<Rightarrow> Inl e | Inr max_alt_dorm' \<Rightarrow>
     (case extreme argmin alt_dorm_sizes' unique_alt_dorms' of Inl e \<Rightarrow> Inl e | Inr min_alt_dorm1 \<Rightarrow>
     (case extreme argmax ref_dorm_sizes' unique_ref_dorms' of Inl e \<Rightarrow> Inl e | Inr max_ref_dorm' \<Rightarrow>
     (case extreme argmin ref_dorm_sizes' unique_ref_dorms' of Inl e \<Rightarrow> Inl e | Inr min_alt_dorm2 \<Rightarrow>
        Inr (max_dorm', min_dorm', max_alt_dorm', min_alt_dorm2, max_ref_dorm')))))))"

text \<open>\<^verbatim>\<open>{dorm: i for i, dorm in enumerate(unique_dorms)}\<close>.\<close>

definition enumerate_idx :: "string list \<Rightarrow> (string \<times> nat) list" where
  "enumerate_idx unique = zip unique [0..<length unique]"

text \<open>
  Lines 51 to 57: an empty dictionary with \<^verbatim>\<open>add_intercept=False\<close> gives the warning and
  switches \<^verbatim>\<open>add_intercept\<close> on; then \<^verbatim>\<open>covs.update({'intercept': np.ones(num_obs)})\<close>
  replaces the entry of that name or appends one. The result is the dictionary and the
  warnings.
\<close>

definition add_intercept_step :: "covdict \<Rightarrow> bool \<Rightarrow> nat \<Rightarrow> covdict \<times> string list" where
  "add_intercept_step covs1 add_intercept0 n =
     (let warn = (covs1 = [] \<and> \<not> add_intercept0);
          add_intercept1 = (if warn then True else add_intercept0)
      in (if add_intercept1 then AList.update intercept (ones n) covs1 else covs1,
          if warn then [intercept_warning] else []))"

text \<open>
  The constructor, \<^verbatim>\<open>CWData.__init__\<close>, up to its last statement (lines 42 to 104).
  \<open>covs0\<close> is \<open>None\<close> for the default \<^verbatim>\<open>covs=None\<close>; otherwise the object works on the
  caller's dictionary itself, so every change of \<^verbatim>\<open>self.covs\<close> is a change of that
  dictionary (\<open>seen\<close>).
\<close>

definition init_structures ::
  "ndarray \<Rightarrow> ndarray \<Rightarrow> string list \<Rightarrow> string list \<Rightarrow>
   covdict option \<Rightarrow> ndarray option \<Rightarrow> bool \<Rightarrow> outcome" where
  "init_structures obs0 obs_se0 alt_dorms0 ref_dorms0 covs0 study_id0 add_intercept0 =
     (let covs1 = (case covs0 of None \<Rightarrow> [] | Some c \<Rightarrow> c);
          seen = (\<lambda>c. case covs0 of None \<Rightarrow> None | Some _ \<Rightarrow> Some c);
          n = nd_size obs0;
          covs2 = fst (add_intercept_step covs1 add_intercept0 n);
          ws = snd (add_intercept_step covs1 add_intercept0 n);
          ncovs = length covs2
      in
      case check obs0 obs_se0 alt_dorms0 ref_dorms0 covs2 ncovs study_id0 n of
        Inl e \<Rightarrow> \<lparr>result = Inl e, caller_covs = seen covs2, warnings = ws\<rparr>
      | Inr _ \<Rightarrow>
     (case array_structure (alt_dorms0 @ ref_dorms0) of (nd, ds, ud) \<Rightarrow>
     (case array_structure alt_dorms0 of (nad, ads, uad) \<Rightarrow>
     (case array_structure ref_dorms0 of (nrd, rds, urd) \<Rightarrow>
     (case extreme_dorms ds ud ads uad rds urd of
        Inl e \<Rightarrow> \<lparr>result = Inl e, caller_covs = seen covs2, warnings = ws\<rparr>
      | Inr (max_dorm', min_dorm', max_alt_dorm', min_alt_dorm', max_ref_dorm') \<Rightarrow>
     (case (case study_id0 of
              None \<Rightarrow> (n, replicate n 1, None)
            | Some sid \<Rightarrow>
                (case nd_array_structure sid of (ns, ss, us) \<Rightarrow> (ns, ss, Some us))) of
        (num_studies', study_sizes', unique_study_id') \<Rightarrow>
       \<lparr>result = Inr
          \<lparr>obs = obs0, obs_se = obs_se0, alt_dorms = alt_dorms0, ref_dorms = ref_dorms0,
           covs = covs2, study_id = study_id0, num_obs = n, num_covs = ncovs,
           num_dorms = nd, dorm_sizes = ds, unique_dorms = ud,
           num_alt_dorms = nad, alt_dorm_sizes = ads, unique_alt_dorms = uad,
           num_ref_dorms = nrd, ref_dorm_sizes = rds, unique_ref_dorms = urd,
           max_dorm = max_dorm', min_dorm = min_dorm', max_alt_dorm = max_alt_dorm',
           min_alt_dorm = min_alt_dorm', max_ref_dorm = max_ref_dorm',
           dorm_idx = enumerate_idx ud,
           num_studies = num_studies', study_sizes = study_sizes',
           unique_study_id = unique_study_id'\<rparr>,
        caller_covs = seen covs2, warnings = ws\<rparr>))))))"

text \<open>
  The whole constructor: the last statement, line 105, is \<^verbatim>\<open>self.sort_by_study_id()\<close>. The
  caller's dictionary, when there is one, is \<^verbatim>\<open>self.covs\<close> as the sort leaves it.
\<close>

definition CWData_init ::
  "(real list \<Rightarrow> nat list) \<Rightarrow> ndarray \<Rightarrow> ndarray \<Rightarrow> string list \<Rightarrow> string list \<Rightarrow>
   covdict option \<Rightarrow> ndarray option \<Rightarrow> bool \<Rightarrow> outcome" where
  "CWData_init argsort obs0 obs_se0 alt_dorms0 ref_dorms0 covs0 study_id0 add_intercept0 =
     (let out = init_structures obs0 obs_se0 alt_dorms0 ref_dorms0 covs0 study_id0 add_intercept0
      in case result out of
           Inl e \<Rightarrow> out
         | Inr self \<Rightarrow>
             (case sort_by_study_id argsort self of
                (self', r) \<Rightarrow>
                  \<lparr>result = (case r of None \<Rightarrow> Inr self' | Some e \<Rightarrow> Inl e),
                   caller_covs = (case covs0 of None \<Rightarrow> None | Some _ \<Rightarrow> Some (covs self')),
                   warnings = warnings out\<rparr>))"

subsection \<open>Notions used in the statements\<close>

text \<open>\<^verbatim>\<open>self.covs\<close> after line 57, for the arguments \<^verbatim>\<open>covs\<close> and \<^verbatim>\<open>add_intercept\<close>.\<close>

definition covs_after_intercept :: "covdict option \<Rightarrow> bool \<Rightarrow> nat \<Rightarrow> covdict" where
  "covs_after_intercept covs0 add_intercept0 n =
     fst (add_intercept_step (case covs0 of None \<Rightarrow> [] | Some c \<Rightarrow> c) add_intercept0 n)"

text \<open>An array read at the positions \<open>ids\<close>, all of them in range.\<close>

fun nd_pick :: "ndarray \<Rightarrow> nat list \<Rightarrow> ndarray" where
  "nd_pick (NumArray xs) ids = NumArray (map (\<lambda>i. xs ! i) ids)"
| "nd_pick (StrArray xs) ids = StrArray (map (\<lambda>i. xs ! i) ids)"

text \<open>The object with its six groups of sequences read at the positions \<open>ids\<close>.\<close>

definition sorted_object :: "nat list \<Rightarrow> ndarray \<Rightarrow> CWData \<Rightarrow> CWData" where
  "sorted_object ids sid self =
     self\<lparr>study_id := Some (nd_pick sid ids), obs := nd_pick (obs self) ids,
          obs_se := nd_pick (obs_se self) ids,
          alt_dorms := map (\<lambda>i. alt_dorms self ! i) ids,
          ref_dorms := map (\<lambda>i. ref_dorms self ! i) ids,
          covs := map (\<lambda>(k, v). (k, nd_pick v ids)) (covs self)\<rparr>"

text \<open>The contract of \<^verbatim>\<open>np.argsort\<close> at the \<open>study_id\<close> of a call.\<close>

definition argsort_ok :: "(real list \<Rightarrow> nat list) \<Rightarrow> ndarray option \<Rightarrow> bool" where
  "argsort_ok argsort study_id0 =
     (case study_id0 of
        None \<Rightarrow> True
      | Some (NumArray s) \<Rightarrow> is_argsort s (argsort s)
      | Some (StrArray s) \<Rightarrow> True)"

text \<open>
  The logical record at a position: value, standard error, the two labels, the study
  id if there is one, and the covariates by name.
\<close>

datatype scalar = Num real | Str string

fun nd_item :: "ndarray \<Rightarrow> nat \<Rightarrow> scalar" where
  "nd_item (NumArray xs) i = Num (xs ! i)"
| "nd_item (StrArray xs) i = Str (xs ! i)"

type_synonym row = "scalar \<times> scalar \<times> string \<times> string \<times> scalar option \<times> (key \<times> scalar) list"

definition row_at ::
  "ndarray \<Rightarrow> ndarray \<Rightarrow> string list \<Rightarrow> string list \<Rightarrow> ndarray option \<Rightarrow> covdict \<Rightarrow>
   nat \<Rightarrow> row" where
  "row_at obs' obs_se' alt_dorms' ref_dorms' study_id' covs' i =
     (nd_item obs' i, nd_item obs_se' i, alt_dorms' ! i, ref_dorms' ! i,
      map_option (\<lambda>s. nd_item s i) study_id', map (\<lambda>(k, v). (k, nd_item v i)) covs')"

definition rows ::
  "ndarray \<Rightarrow> ndarray \<Rightarrow> string list \<Rightarrow> string list \<Rightarrow> ndarray option \<Rightarrow> covdict \<Rightarrow>
   row list" where
  "rows obs' obs_se' alt_dorms' ref_dorms' study_id' covs' =
     map (row_at obs' obs_se' alt_dorms' ref_dorms' study_id' covs') [0..<nd_size obs']"

definition rows_of :: "CWData \<Rightarrow> row list" where
  "rows_of self =
     rows (obs self) (obs_se self) (alt_dorms self) (ref_dorms self) (study_id self) (covs self)"

text \<open>
  A sequence of positions keeps ties in order when, for each of its positions \<open>k\<close>, the
  positions that hold the same value as \<open>k\<close> come in it as they come in \<open>0, ..., n - 1\<close>.
\<close>

definition ties_in_order :: "real list \<Rightarrow> nat list \<Rightarrow> bool" where
  "ties_in_order xs ids =
     list_all (\<lambda>k. filter (\<lambda>i. xs ! k = xs ! i) ids =
                    filter (\<lambda>i. xs ! k = xs ! i) [0..<length xs]) ids"

text \<open>The study id of a record.\<close>

definition row_study_id :: "row \<Rightarrow> scalar option" where
  "row_study_id r = fst (snd (snd (snd (snd r))))"

section \<open>Properties\<close>

subsection \<open>Extrema and group structure\<close>

lemma arg_loop_bound:
  "besti < i \<Longrightarrow> arg_loop better xs i best besti < i + length xs"
proof (induction xs arbitrary: i best besti)
  case Nil
  then show ?case by simp
next
  case (Cons x xs)
  have a: "arg_loop better xs (Suc i) x i < Suc i + length xs"
    by (rule Cons.IH) simp
  have b: "arg_loop better xs (Suc i) best besti < Suc i + length xs"
    by (rule Cons.IH) (use Cons.prems in simp)
  from a b show ?case by simp
qed

lemma argmax_Inr: "xs \<noteq> [] \<Longrightarrow> \<exists>i. argmax xs = Inr i \<and> i < length xs"
  using arg_loop_bound [of 0 1] by (cases xs) (auto simp: argmax_def)

lemma argmin_Inr: "xs \<noteq> [] \<Longrightarrow> \<exists>i. argmin xs = Inr i \<and> i < length xs"
  using arg_loop_bound [of 0 1] by (cases xs) (auto simp: argmin_def)

lemma unique_sorted_Nil [simp]: "unique_sorted xs = [] \<longleftrightarrow> xs = []"
  by (metis unique_sorted_def remdups_eq_nil_iff length_0_conv length_sort)

lemma extreme_empty:
  "extreme argmax [] u = Inl ValueError" "extreme argmin [] u = Inl ValueError"
  by (simp_all add: extreme_def argmax_def argmin_def)

lemma extreme_argmax_Inr:
  "sizes \<noteq> [] \<Longrightarrow> length u = length sizes \<Longrightarrow> \<exists>i. argmax sizes = Inr i \<and> i < length u \<and> extreme argmax sizes u = Inr (u ! i)"
  using argmax_Inr [of sizes] by (auto simp: extreme_def item_def)

lemma extreme_argmin_Inr:
  "sizes \<noteq> [] \<Longrightarrow> length u = length sizes \<Longrightarrow> \<exists>i. argmin sizes = Inr i \<and> i < length u \<and> extreme argmin sizes u = Inr (u ! i)"
  using argmin_Inr [of sizes] by (auto simp: extreme_def item_def)

subsection \<open>Validation\<close>

lemma check_Inr_iff:
  "check o1 se al re c nc sid n = Inr () \<longleftrightarrow>
     is_numerical_array o1 n \<and> is_numerical_array se n \<and> all_positive se \<and>
     length al = n \<and> length re = n \<and> length c = nc \<and> check_covs c n \<and>
     (case sid of None \<Rightarrow> True | Some s \<Rightarrow> is_numerical_array s n)"
  by (simp add: check_def split: option.splits)

lemma check_Inl: "check o1 se al re c nc sid n = Inl e \<Longrightarrow> e = AssertionError"
  by (simp add: check_def split: option.splits if_splits)

subsection \<open>The constructor before the sort\<close>

lemma init_structures_Inr:
  assumes "result (init_structures o0 se al re c sid b) = Inr self"
  shows "check o0 se al re (covs self) (length (covs self)) sid (nd_size o0) = Inr ()"
    and "covs self = covs_after_intercept c b (nd_size o0)"
    and "obs self = o0" and "obs_se self = se" and "alt_dorms self = al"
    and "ref_dorms self = re" and "study_id self = sid" and "num_obs self = nd_size o0"
    and "num_covs self = length (covs self)"
    and "(num_dorms self, dorm_sizes self, unique_dorms self) = array_structure (al @ re)"
    and "(num_alt_dorms self, alt_dorm_sizes self, unique_alt_dorms self) = array_structure al"
    and "(num_ref_dorms self, ref_dorm_sizes self, unique_ref_dorms self) = array_structure re"
    and "extreme_dorms (dorm_sizes self) (unique_dorms self) (alt_dorm_sizes self)
           (unique_alt_dorms self) (ref_dorm_sizes self) (unique_ref_dorms self) =
         Inr (max_dorm self, min_dorm self, max_alt_dorm self, min_alt_dorm self, max_ref_dorm self)"
    and "dorm_idx self = enumerate_idx (unique_dorms self)"
    and "sid = None \<Longrightarrow> num_studies self = nd_size o0 \<and> study_sizes self = replicate (nd_size o0) 1 \<and> unique_study_id self = None"
  using assms
  by (auto simp: init_structures_def Let_def covs_after_intercept_def
      split: sum.splits prod.splits option.splits)

subsection \<open>The sort\<close>

lemma nd_take_eq:
  "nd_take a ids =
     (if list_all (\<lambda>i. i < nd_size a) ids then Inr (nd_pick a ids) else Inl IndexError)"
  by (cases a) (simp_all add: take_ids_def)

lemma sort_covs_ok:
  "list_all (\<lambda>(k, v). list_all (\<lambda>i. i < nd_size v) ids) c \<Longrightarrow>
   sort_covs c ids = (map (\<lambda>(k, v). (k, nd_pick v ids)) c, None)"
  by (induction c) (auto simp: nd_take_eq)

lemma sort_covs_None:
  "snd (sort_covs c ids) = None \<Longrightarrow>
   list_all (\<lambda>(k, v). list_all (\<lambda>i. i < nd_size v) ids) c"
  by (induction c) (auto simp: nd_take_eq split: if_splits prod.splits)

lemma sort_covs_None_iff:
  "sort_covs c ids = (c', None) \<longleftrightarrow>
     list_all (\<lambda>(k, v). list_all (\<lambda>i. i < nd_size v) ids) c \<and>
     c' = map (\<lambda>(k, v). (k, nd_pick v ids)) c"
  using sort_covs_ok [of ids c] sort_covs_None [of c ids] by auto

lemma sort_by_study_id_no_study:
  "study_id self = None \<Longrightarrow> sort_by_study_id argsort self = (self, None)"
  by (simp add: sort_by_study_id_def)

lemma sort_by_study_id_ok:
  assumes "study_id self = Some sid"
    and "list_all (\<lambda>i. i < nd_size sid) (nd_argsort argsort sid)"
    and "list_all (\<lambda>i. i < nd_size (obs self)) (nd_argsort argsort sid)"
    and "list_all (\<lambda>i. i < nd_size (obs_se self)) (nd_argsort argsort sid)"
    and "list_all (\<lambda>i. i < length (alt_dorms self)) (nd_argsort argsort sid)"
    and "list_all (\<lambda>i. i < length (ref_dorms self)) (nd_argsort argsort sid)"
    and "list_all (\<lambda>(k, v). list_all (\<lambda>i. i < nd_size v) (nd_argsort argsort sid)) (covs self)"
  shows "sort_by_study_id argsort self = (sorted_object (nd_argsort argsort sid) sid self, None)"
  using assms
  by (simp add: sort_by_study_id_def Let_def sorted_object_def nd_take_eq take_ids_def
      sort_covs_ok)

lemma sort_by_study_id_None_D:
  assumes "study_id self = Some sid" and "sort_by_study_id argsort self = (self', None)"
  shows "self' = sorted_object (nd_argsort argsort sid) sid self"
    and "list_all (\<lambda>i. i < nd_size sid) (nd_argsort argsort sid)"
    and "list_all (\<lambda>i. i < nd_size (obs self)) (nd_argsort argsort sid)"
    and "list_all (\<lambda>i. i < nd_size (obs_se self)) (nd_argsort argsort sid)"
    and "list_all (\<lambda>i. i < length (alt_dorms self)) (nd_argsort argsort sid)"
    and "list_all (\<lambda>i. i < length (ref_dorms self)) (nd_argsort argsort sid)"
    and "list_all (\<lambda>(k, v). list_all (\<lambda>i. i < nd_size v) (nd_argsort argsort sid)) (covs self)"
  using assms
  by (auto simp: sort_by_study_id_def Let_def sorted_object_def nd_take_eq take_ids_def
      sort_covs_None_iff split: prod.splits if_splits)

subsection \<open>The whole constructor\<close>

lemma CWData_init_Inr_D:
  assumes "result (CWData_init argsort o0 se al re c sid b) = Inr d"
  shows "\<exists>self. result (init_structures o0 se al re c sid b) = Inr self \<and>
           sort_by_study_id argsort self = (d, None)"
  using assms
  by (auto simp: CWData_init_def Let_def split: sum.splits prod.splits option.splits)

lemma CWData_init_Inl:
  "result (init_structures o0 se al re c sid b) = Inl e \<Longrightarrow>
   CWData_init argsort o0 se al re c sid b = init_structures o0 se al re c sid b"
  by (simp add: CWData_init_def Let_def)

lemma array_structure_Nil: "array_structure [] = (0, [], [])"
  by (simp add: array_structure_def unique_sorted_def)

lemma init_structures_check_failed:
  assumes "check o0 se al re (covs_after_intercept c b (nd_size o0))
             (length (covs_after_intercept c b (nd_size o0))) sid (nd_size o0) \<noteq> Inr ()"
  shows "init_structures o0 se al re c sid b =
           \<lparr>result = Inl AssertionError,
            caller_covs = (case c of None \<Rightarrow> None | Some _ \<Rightarrow> Some (covs_after_intercept c b (nd_size o0))),
            warnings = snd (add_intercept_step (case c of None \<Rightarrow> [] | Some c' \<Rightarrow> c') b (nd_size o0))\<rparr>"
  using assms check_Inl
  by (auto simp: init_structures_def Let_def covs_after_intercept_def
      split: sum.splits option.splits)

lemma init_structures_empty:
  assumes "check o0 se al re (covs_after_intercept c b (nd_size o0))
             (length (covs_after_intercept c b (nd_size o0))) sid (nd_size o0) = Inr ()"
    and "nd_size o0 = 0"
  shows "result (init_structures o0 se al re c sid b) = Inl ValueError"
proof -
  from assms have "al = []" "re = []"
    by (simp_all add: check_Inr_iff)
  with assms show ?thesis
    by (simp add: init_structures_def Let_def covs_after_intercept_def array_structure_Nil
        extreme_dorms_def extreme_empty)
qed

subsection \<open>Standard errors\<close>

lemma all_positive_pick:
  "all_positive a \<Longrightarrow> list_all (\<lambda>i. i < nd_size a) ids \<Longrightarrow> all_positive (nd_pick a ids)"
  by (cases a) (auto simp: list_all_iff)

lemma CWData_init_obs_se_positive:
  assumes "result (CWData_init argsort obs0 obs_se0 alt_dorms0 ref_dorms0 covs0 study_id0
             add_intercept0) = Inr d"
  shows "all_positive (obs_se d)"
proof -
  from CWData_init_Inr_D [OF assms] obtain self where
    self: "result (init_structures obs0 obs_se0 alt_dorms0 ref_dorms0 covs0 study_id0
             add_intercept0) = Inr self"
    and sort: "sort_by_study_id argsort self = (d, None)"
    by blast
  have pos: "all_positive (obs_se self)"
    using init_structures_Inr(1,4) [OF self] by (simp add: check_Inr_iff)
  show ?thesis
  proof (cases "study_id self")
    case None
    then have "d = self"
      using sort by (simp add: sort_by_study_id_no_study)
    with pos show ?thesis by simp
  next
    case (Some sid)
    from sort_by_study_id_None_D(1,4) [OF Some sort] pos show ?thesis
      by (simp add: sorted_object_def all_positive_pick)
  qed
qed

lemma not_all_positive:
  "list_ex (\<lambda>x. x \<le> 0) ses \<Longrightarrow> \<not> all_positive (NumArray ses)"
  by (induction ses) auto

subsection \<open>The intercept step\<close>

lemma covs_after_intercept_Some:
  "covs_after_intercept (Some c) b n =
     (if b \<or> c = [] then AList.update intercept (ones n) c else c)"
  by (simp add: covs_after_intercept_def add_intercept_step_def Let_def)

lemma covs_after_intercept_None:
  "covs_after_intercept None b n = [(intercept, ones n)]"
  by (simp add: covs_after_intercept_def add_intercept_step_def Let_def)

subsection \<open>Reading at the positions of the sort\<close>

lemma nd_pick_ones:
  "list_all (\<lambda>i. i < n) ids \<Longrightarrow> nd_pick (ones n) ids = ones (length ids)"
  by (induction ids) (simp_all add: ones_def)

lemma map_of_picked:
  "map_of (map (\<lambda>(k, v). (k, nd_pick v ids)) c) k = map_option (\<lambda>v. nd_pick v ids) (map_of c k)"
  by (induction c) auto

lemma nd_size_pick [simp]: "nd_size (nd_pick a ids) = length ids"
  by (cases a) simp_all

lemma is_numerical_array_size: "is_numerical_array a n \<Longrightarrow> nd_size a = n"
  by (cases a) simp_all

text \<open>
  What a successful construction leaves: the object before the sort, read at the
  positions that \<^verbatim>\<open>argsort\<close> gave when there is a \<open>study_id\<close>.
\<close>

lemma CWData_init_Inr_cases:
  assumes "result (CWData_init argsort obs0 obs_se0 alt_dorms0 ref_dorms0 covs0 study_id0
             add_intercept0) = Inr d"
  obtains self where
    "result (init_structures obs0 obs_se0 alt_dorms0 ref_dorms0 covs0 study_id0
       add_intercept0) = Inr self"
    and "study_id0 = None \<Longrightarrow> d = self"
    and "\<And>sid. study_id0 = Some sid \<Longrightarrow>
           d = sorted_object (nd_argsort argsort sid) sid self \<and>
           list_all (\<lambda>i. i < nd_size obs0) (nd_argsort argsort sid)"
proof -
  from CWData_init_Inr_D [OF assms] obtain self where
    self: "result (init_structures obs0 obs_se0 alt_dorms0 ref_dorms0 covs0 study_id0
             add_intercept0) = Inr self"
    and sort: "sort_by_study_id argsort self = (d, None)"
    by blast
  note f = init_structures_Inr [OF self]
  have a: "d = self" if "study_id0 = None"
    using that sort f(7) by (simp add: sort_by_study_id_no_study)
  have b: "d = sorted_object (nd_argsort argsort sid) sid self \<and>
           list_all (\<lambda>i. i < nd_size obs0) (nd_argsort argsort sid)"
    if "study_id0 = Some sid" for sid
  proof -
    have s: "study_id self = Some sid"
      using that f(7) by simp
    from sort_by_study_id_None_D(1,3) [OF s sort] f(3) show ?thesis
      by simp
  qed
  from self a b that show thesis
    by blast
qed

lemma CWData_init_caller_covs:
  assumes "result (CWData_init argsort obs0 obs_se0 alt_dorms0 ref_dorms0 covs0 study_id0
             add_intercept0) = Inr d"
  shows "caller_covs (CWData_init argsort obs0 obs_se0 alt_dorms0 ref_dorms0 covs0 study_id0
             add_intercept0) = (case covs0 of None \<Rightarrow> None | Some _ \<Rightarrow> Some (covs d))"
  using assms
  by (auto simp: CWData_init_def Let_def split: sum.splits prod.splits option.splits)

subsection \<open>The index of the definitions\<close>

lemma unique_sorted_props:
  "sorted (unique_sorted xs)" "distinct (unique_sorted xs)" "set (unique_sorted xs) = set xs"
  by (simp_all add: unique_sorted_def)

lemma array_structure_eq:
  "(n, sizes, u) = array_structure xs \<Longrightarrow>
     u = unique_sorted xs \<and> n = length u \<and> sizes = map (count_list xs) u"
  by (simp add: array_structure_def Let_def)

lemma enumerate_idx_keys: "map fst (enumerate_idx u) = u"
  by (simp add: enumerate_idx_def)

lemma enumerate_idx_lookup:
  "distinct u \<Longrightarrow> i < length u \<Longrightarrow> map_of (enumerate_idx u) (u ! i) = Some i"
  using map_of_zip_nth [of u "[0..<length u]" i] by (simp add: enumerate_idx_def)

lemma sorted_object_keeps:
  "dorm_idx (sorted_object ids sid self) = dorm_idx self"
  "unique_dorms (sorted_object ids sid self) = unique_dorms self"
  "dorm_sizes (sorted_object ids sid self) = dorm_sizes self"
  "num_dorms (sorted_object ids sid self) = num_dorms self"
  "num_obs (sorted_object ids sid self) = num_obs self"
  "num_covs (sorted_object ids sid self) = num_covs self"
  by (simp_all add: sorted_object_def)

lemma CWData_init_dorms:
  assumes "result (CWData_init argsort obs0 obs_se0 alt_dorms0 ref_dorms0 covs0 study_id0
             add_intercept0) = Inr d"
  shows "unique_dorms d = unique_sorted (alt_dorms0 @ ref_dorms0)"
    and "num_dorms d = length (unique_dorms d)"
    and "dorm_sizes d = map (count_list (alt_dorms0 @ ref_dorms0)) (unique_dorms d)"
    and "dorm_idx d = enumerate_idx (unique_dorms d)"
proof -
  from CWData_init_Inr_cases [OF assms] obtain self where
    self: "result (init_structures obs0 obs_se0 alt_dorms0 ref_dorms0 covs0 study_id0
       add_intercept0) = Inr self"
    and none: "study_id0 = None \<Longrightarrow> d = self"
    and some: "\<And>sid. study_id0 = Some sid \<Longrightarrow>
           d = sorted_object (nd_argsort argsort sid) sid self \<and>
           list_all (\<lambda>i. i < nd_size obs0) (nd_argsort argsort sid)"
    by blast
  note f = init_structures_Inr [OF self]
  have same: "unique_dorms d = unique_dorms self" "num_dorms d = num_dorms self"
    "dorm_sizes d = dorm_sizes self" "dorm_idx d = dorm_idx self"
    using none some by (cases study_id0; simp add: sorted_object_keeps)+
  from array_structure_eq [OF f(10)] f(14) same
  show "unique_dorms d = unique_sorted (alt_dorms0 @ ref_dorms0)"
    and "num_dorms d = length (unique_dorms d)"
    and "dorm_sizes d = map (count_list (alt_dorms0 @ ref_dorms0)) (unique_dorms d)"
    and "dorm_idx d = enumerate_idx (unique_dorms d)"
    by simp_all
qed

subsection \<open>When the constructor succeeds\<close>

lemma extreme_array_structure:
  assumes "xs \<noteq> []" and "(n, sizes, u) = array_structure xs"
  shows "\<exists>l. extreme argmax sizes u = Inr l" and "\<exists>l. extreme argmin sizes u = Inr l"
proof -
  from array_structure_eq [OF assms(2)] assms(1)
  have "sizes \<noteq> []" "length u = length sizes"
    by simp_all
  then show "\<exists>l. extreme argmax sizes u = Inr l" and "\<exists>l. extreme argmin sizes u = Inr l"
    using extreme_argmax_Inr [of sizes u] extreme_argmin_Inr [of sizes u] by auto
qed

lemma extreme_dorms_Inr:
  assumes "al \<noteq> []" and "re \<noteq> []"
    and "(n, sizes, u) = array_structure (al @ re)"
    and "(na, asizes, ua) = array_structure al"
    and "(nr, rsizes, ur) = array_structure re"
  shows "\<exists>r. extreme_dorms sizes u asizes ua rsizes ur = Inr r"
proof -
  have "al @ re \<noteq> []"
    using assms(1) by simp
  from extreme_array_structure [OF this assms(3)]
    extreme_array_structure [OF assms(1) assms(4)]
    extreme_array_structure [OF assms(2) assms(5)]
  show ?thesis
    by (auto simp: extreme_dorms_def)
qed

lemma init_structures_succeeds:
  assumes "check obs0 obs_se0 alt_dorms0 ref_dorms0
      (covs_after_intercept covs0 add_intercept0 (nd_size obs0))
      (length (covs_after_intercept covs0 add_intercept0 (nd_size obs0))) study_id0
      (nd_size obs0) = Inr ()"
    and "0 < nd_size obs0"
  shows "\<exists>self. result (init_structures obs0 obs_se0 alt_dorms0 ref_dorms0 covs0 study_id0
           add_intercept0) = Inr self"
proof -
  from assms have ne: "alt_dorms0 \<noteq> []" "ref_dorms0 \<noteq> []"
    by (auto simp: check_Inr_iff)
  obtain n sizes u where 1: "(n, sizes, u) = array_structure (alt_dorms0 @ ref_dorms0)"
    by (metis prod_cases3)
  obtain na asizes ua where 2: "(na, asizes, ua) = array_structure alt_dorms0"
    by (metis prod_cases3)
  obtain nr rsizes ur where 3: "(nr, rsizes, ur) = array_structure ref_dorms0"
    by (metis prod_cases3)
  from extreme_dorms_Inr [OF ne 1 2 3] obtain r where
    r: "extreme_dorms sizes u asizes ua rsizes ur = Inr r"
    by blast
  show ?thesis
    using assms(1) r 1 [symmetric] 2 [symmetric] 3 [symmetric]
    by (auto simp: init_structures_def Let_def covs_after_intercept_def
        split: prod.splits option.splits sum.splits)
qed

lemma is_argsort_in_range:
  "is_argsort s ids \<Longrightarrow> list_all (\<lambda>i. i < length s) ids"
proof -
  assume "is_argsort s ids"
  then have "set ids = set [0..<length s]"
    unfolding is_argsort_def by (metis set_mset_mset)
  then show ?thesis
    by (simp add: list_all_iff)
qed

lemma is_argsort_length: "is_argsort s ids \<Longrightarrow> length ids = length s"
  unfolding is_argsort_def by (metis size_mset length_upt diff_zero)

lemma check_covs_in_range:
  "check_covs c n \<Longrightarrow> list_all (\<lambda>i. i < n) ids \<Longrightarrow>
   list_all (\<lambda>(k, v). list_all (\<lambda>i. i < nd_size v) ids) c"
  by (induction c n rule: check_covs.induct)
    (auto split: if_splits simp: is_numerical_array_size)

lemma CWData_init_succeeds:
  assumes "check obs0 obs_se0 alt_dorms0 ref_dorms0
      (covs_after_intercept covs0 add_intercept0 (nd_size obs0))
      (length (covs_after_intercept covs0 add_intercept0 (nd_size obs0))) study_id0
      (nd_size obs0) = Inr ()"
    and "0 < nd_size obs0"
    and "argsort_ok argsort study_id0"
  shows "\<exists>d. result (CWData_init argsort obs0 obs_se0 alt_dorms0 ref_dorms0 covs0 study_id0
           add_intercept0) = Inr d"
proof -
  let ?n = "nd_size obs0"
  from init_structures_succeeds [OF assms(1,2)] obtain self where
    self: "result (init_structures obs0 obs_se0 alt_dorms0 ref_dorms0 covs0 study_id0
           add_intercept0) = Inr self"
    by blast
  note f = init_structures_Inr [OF self]
  note c = assms(1) [unfolded check_Inr_iff]
  have "\<exists>d. sort_by_study_id argsort self = (d, None)"
  proof (cases study_id0)
    case None
    then show ?thesis
      using f(7) by (simp add: sort_by_study_id_no_study)
  next
    case (Some sid)
    with c have "is_numerical_array sid ?n"
      by simp
    then obtain s where s: "sid = NumArray s" "length s = ?n"
      by (cases sid) simp_all
    with assms(3) Some have "is_argsort s (argsort s)"
      by (simp add: argsort_ok_def)
    from is_argsort_in_range [OF this] s
    have r: "list_all (\<lambda>i. i < ?n) (nd_argsort argsort sid)"
      by simp
    have sz: "nd_size sid = ?n" "nd_size (obs self) = ?n" "nd_size (obs_se self) = ?n"
      "length (alt_dorms self) = ?n" "length (ref_dorms self) = ?n"
      using s c f(3-6) by (simp_all add: is_numerical_array_size)
    have cv: "list_all (\<lambda>(k, v). list_all (\<lambda>i. i < nd_size v) (nd_argsort argsort sid)) (covs self)"
    proof -
      have "check_covs (covs self) ?n"
        using c f(2) by simp
      from check_covs_in_range [OF this r] show ?thesis .
    qed
    have "study_id self = Some sid"
      using Some f(7) by simp
    from sort_by_study_id_ok [OF this] r sz cv show ?thesis
      by simp
  qed
  then show ?thesis
    using self by (auto simp: CWData_init_def Let_def)
qed

subsection \<open>No covariates\<close>

lemma add_intercept_step_empty:
  "add_intercept_step [] False n = ([(intercept, ones n)], [intercept_warning])"
  "add_intercept_step [] True n = ([(intercept, ones n)], [])"
  by (simp_all add: add_intercept_step_def Let_def)

lemma init_structures_override:
  assumes "covs0 = None \<or> covs0 = Some []"
  shows "init_structures obs0 obs_se0 alt_dorms0 ref_dorms0 covs0 study_id0 False =
         (init_structures obs0 obs_se0 alt_dorms0 ref_dorms0 covs0 study_id0 True)
           \<lparr>warnings := [intercept_warning]\<rparr>"
  using assms
  by (auto simp: init_structures_def Let_def add_intercept_step_empty
      split: sum.splits prod.splits option.splits)

lemma CWData_init_override:
  assumes "covs0 = None \<or> covs0 = Some []"
  shows "CWData_init argsort obs0 obs_se0 alt_dorms0 ref_dorms0 covs0 study_id0 False =
         (CWData_init argsort obs0 obs_se0 alt_dorms0 ref_dorms0 covs0 study_id0 True)
           \<lparr>warnings := [intercept_warning]\<rparr>"
  unfolding CWData_init_def init_structures_override [OF assms]
  by (simp add: Let_def split: sum.splits prod.splits option.splits)

lemma CWData_init_warnings:
  "warnings (CWData_init argsort obs0 obs_se0 alt_dorms0 ref_dorms0 covs0 study_id0 add_intercept0) =
   snd (add_intercept_step (case covs0 of None \<Rightarrow> [] | Some c \<Rightarrow> c) add_intercept0 (nd_size obs0))"
  by (simp add: CWData_init_def init_structures_def Let_def
      split: sum.splits prod.splits option.splits)

subsection \<open>Records under the sort\<close>

lemma nd_item_pick: "j < length ids \<Longrightarrow> nd_item (nd_pick a ids) j = nd_item a (ids ! j)"
  by (cases a) simp_all

lemma row_at_picked:
  assumes "j < length ids"
  shows "row_at (nd_pick o1 ids) (nd_pick se ids) (map (\<lambda>i. al ! i) ids) (map (\<lambda>i. re ! i) ids)
           (Some (nd_pick sid ids)) (map (\<lambda>(k, v). (k, nd_pick v ids)) c) j =
         row_at o1 se al re (Some sid) c (ids ! j)"
  using assms by (simp add: row_at_def nd_item_pick case_prod_beta comp_def)

lemma rows_picked:
  "rows (nd_pick o1 ids) (nd_pick se ids) (map (\<lambda>i. al ! i) ids) (map (\<lambda>i. re ! i) ids)
     (Some (nd_pick sid ids)) (map (\<lambda>(k, v). (k, nd_pick v ids)) c) =
   map (row_at o1 se al re (Some sid) c) ids"
  by (rule nth_equalityI) (simp_all add: rows_def row_at_picked)

lemma mset_map_positions:
  assumes "mset ids = mset [0..<n]"
  shows "mset (map f ids) = mset (map f [0..<n])"
  using assms by (metis mset_map)

lemma covs_picked_sizes:
  "list_all (\<lambda>(k, v). nd_size v = length ids) (map (\<lambda>(k, v). (k, nd_pick v ids)) c)"
  by (induction c) auto

subsection \<open>Sorting functions and the contract\<close>

lemma is_argsort_stable_argsort: "is_argsort s (stable_argsort s)"
  by (simp add: is_argsort_def stable_argsort_def)

lemma stable_argsort_ties:
  "filter (\<lambda>i. s ! i = k) (stable_argsort s) = filter (\<lambda>i. s ! i = k) [0..<length s]"
  unfolding stable_argsort_def by (rule sort_key_stable)

lemma is_argsort_mset:
  assumes "is_argsort s ids"
  shows "mset (map (\<lambda>i. s ! i) ids) = mset s"
proof -
  from assms have "mset ids = mset [0..<length s]"
    by (simp add: is_argsort_def)
  then have "mset (map (\<lambda>i. s ! i) ids) = mset (map (\<lambda>i. s ! i) [0..<length s])"
    by (rule mset_map_positions)
  then show ?thesis
    by (simp add: map_nth)
qed

lemma stable_argsort_unique:
  assumes "is_argsort s p" and "ties_in_order s p"
  shows "stable_argsort s = p"
  unfolding stable_argsort_def
proof (rule properties_for_sort_key)
  show "mset p = mset [0..<length s]"
    using assms(1) by (simp add: is_argsort_def)
  show "sorted (map (\<lambda>i. s ! i) p)"
    using assms(1) by (simp add: is_argsort_def)
  show "filter (\<lambda>i. s ! k = s ! i) p = filter (\<lambda>i. s ! k = s ! i) [0..<length s]"
    if "k \<in> set p" for k
    using assms(2) that by (simp add: ties_in_order_def list_all_iff)
qed

lemma ties_in_order_stable_argsort: "ties_in_order s (stable_argsort s)"
proof -
  have "filter (\<lambda>i. s ! k = s ! i) (stable_argsort s) =
        filter (\<lambda>i. s ! k = s ! i) [0..<length s]" for k
  proof -
    have "(\<lambda>i. s ! k = s ! i) = (\<lambda>i. s ! i = s ! k)"
      by auto
    then show ?thesis
      using stable_argsort_ties [of s "s ! k"] by simp
  qed
  then show ?thesis
    unfolding ties_in_order_def list_all_iff by blast
qed

lemma row_study_id_row_at:
  "row_study_id (row_at o1 se al re (Some (NumArray s)) c i) = Some (Num (s ! i))"
  by (simp add: row_study_id_def row_at_def)

lemma rows_with_study_id:
  "filter (\<lambda>r. row_study_id r = Some (Num x)) (map (row_at o1 se al re (Some (NumArray s)) c) ids) =
   map (row_at o1 se al re (Some (NumArray s)) c) (filter (\<lambda>i. s ! i = x) ids)"
  by (simp add: filter_map comp_def row_study_id_row_at)

lemma CWData_init_rows:
  assumes "result (CWData_init argsort obs0 obs_se0 alt_dorms0 ref_dorms0 covs0 (Some sid)
             add_intercept0) = Inr d"
  shows "rows_of d = map (row_at obs0 obs_se0 alt_dorms0 ref_dorms0 (Some sid)
           (covs_after_intercept covs0 add_intercept0 (nd_size obs0))) (nd_argsort argsort sid)"
    and "study_id d = Some (nd_pick sid (nd_argsort argsort sid))"
    and "obs d = nd_pick obs0 (nd_argsort argsort sid)"
    and "is_numerical_array sid (nd_size obs0)"
proof -
  from CWData_init_Inr_cases [OF assms] obtain self where
    self: "result (init_structures obs0 obs_se0 alt_dorms0 ref_dorms0 covs0 (Some sid)
       add_intercept0) = Inr self"
    and d: "d = sorted_object (nd_argsort argsort sid) sid self"
    by blast
  note f = init_structures_Inr [OF self]
  have fields: "study_id d = Some (nd_pick sid (nd_argsort argsort sid))"
    "obs d = nd_pick obs0 (nd_argsort argsort sid)"
    "obs_se d = nd_pick obs_se0 (nd_argsort argsort sid)"
    "alt_dorms d = map (\<lambda>i. alt_dorms0 ! i) (nd_argsort argsort sid)"
    "ref_dorms d = map (\<lambda>i. ref_dorms0 ! i) (nd_argsort argsort sid)"
    "covs d = map (\<lambda>(k, v). (k, nd_pick v (nd_argsort argsort sid)))
       (covs_after_intercept covs0 add_intercept0 (nd_size obs0))"
    using d f(2-7) by (simp_all add: sorted_object_def)
  show "rows_of d = map (row_at obs0 obs_se0 alt_dorms0 ref_dorms0 (Some sid)
           (covs_after_intercept covs0 add_intercept0 (nd_size obs0))) (nd_argsort argsort sid)"
    unfolding rows_of_def fields by (rule rows_picked)
  show "study_id d = Some (nd_pick sid (nd_argsort argsort sid))"
    and "obs d = nd_pick obs0 (nd_argsort argsort sid)"
    by (rule fields)+
  show "is_numerical_array sid (nd_size obs0)"
    using f(1) by (simp add: check_Inr_iff)
qed

subsection \<open>Evaluation\<close>

text \<open>The equations that evaluate the model on a concrete input.\<close>

lemmas run_defs =
  CWData_init_def init_structures_def sort_by_study_id_def check_def add_intercept_step_def
  covs_after_intercept_def extreme_dorms_def extreme_def argmax_def argmin_def item_def
  array_structure_def unique_sorted_def enumerate_idx_def take_ids_def ones_def intercept_def
  intercept_warning_def stable_argsort_def is_argsort_def Let_def upt_rec

section \<open>The claims\<close>

subsection \<open>C1\<close>

text \<open>
  Claim C1: the object exposes, as two scalars, the label of the smallest group among the
  alternative definitions and the label of the smallest group among the reference
  definitions. The source assigns \<^verbatim>\<open>min_alt_dorm\<close> twice (lines 84 and 88) and
  \<^verbatim>\<open>min_ref_dorm\<close> never. For the labels below the smallest group among the alternative
  definitions is \<open>B\<close> and the smallest among the reference definitions is \<open>A\<close>; the object
  holds \<open>A\<close> under \<^verbatim>\<open>min_alt_dorm\<close>.
\<close>

theorem C1_min_alt_dorm_holds_ref_minimum:
  "map_sum id min_alt_dorm
     (result (CWData_init stable_argsort (NumArray [1, 2, 3]) (NumArray [1, 1, 1])
        [''A'', ''B'', ''A''] [''B'', ''C'', ''A''] None None True)) = Inr ''A'' \<and>
   map_sum id unique_alt_dorms
     (result (CWData_init stable_argsort (NumArray [1, 2, 3]) (NumArray [1, 1, 1])
        [''A'', ''B'', ''A''] [''B'', ''C'', ''A''] None None True)) = Inr [''A'', ''B''] \<and>
   map_sum id alt_dorm_sizes
     (result (CWData_init stable_argsort (NumArray [1, 2, 3]) (NumArray [1, 1, 1])
        [''A'', ''B'', ''A''] [''B'', ''C'', ''A''] None None True)) = Inr [2, 1] \<and>
   extreme argmin [2, 1] [''A'', ''B''] = Inr ''B'' \<and>
   map_sum id unique_ref_dorms
     (result (CWData_init stable_argsort (NumArray [1, 2, 3]) (NumArray [1, 1, 1])
        [''A'', ''B'', ''A''] [''B'', ''C'', ''A''] None None True)) = Inr [''A'', ''B'', ''C''] \<and>
   map_sum id ref_dorm_sizes
     (result (CWData_init stable_argsort (NumArray [1, 2, 3]) (NumArray [1, 1, 1])
        [''A'', ''B'', ''A''] [''B'', ''C'', ''A''] None None True)) = Inr [1, 1, 1] \<and>
   extreme argmin [1, 1, 1] [''A'', ''B'', ''C''] = Inr ''A''"
  by (simp add: run_defs)

subsection \<open>C2\<close>

text \<open>
  Claim C2, as the code has it. With a \<open>study_id\<close> the object is sorted in non-decreasing
  order of \<open>study_id\<close>, with the ids it was given. The source calls \<^verbatim>\<open>np.argsort\<close> with its
  default kind, which numpy documents as not stable, so the order among records with
  equal ids is the order of the positions that \<^verbatim>\<open>np.argsort\<close> returns. When that sequence
  keeps ties in order, the records of each study are in the object in the order in which
  they were supplied, and \<open>study_id = [3, 1, 2, 1]\<close> with the values \<open>[v0, v1, v2, v3]\<close>
  gives \<open>[1, 1, 2, 3]\<close> and \<open>[v1, v3, v2, v0]\<close>.
\<close>

theorem C2_sorted_by_study_id:
  assumes "result (CWData_init argsort obs0 obs_se0 alt_dorms0 ref_dorms0 covs0
             (Some (NumArray s)) add_intercept0) = Inr d"
    and "is_argsort s (argsort s)"
  shows "(\<exists>s'. study_id d = Some (NumArray s') \<and> sorted s' \<and> mset s' = mset s) \<and>
         (ties_in_order s (argsort s) \<longrightarrow>
            (\<forall>x. filter (\<lambda>r. row_study_id r = Some (Num x)) (rows_of d) =
                 filter (\<lambda>r. row_study_id r = Some (Num x))
                   (rows obs0 obs_se0 alt_dorms0 ref_dorms0 (Some (NumArray s))
                      (covs_after_intercept covs0 add_intercept0 (nd_size obs0))))) \<and>
         (ties_in_order s (argsort s) \<and> s = [3, 1, 2, 1] \<and> obs0 = NumArray [v0, v1, v2, v3] \<longrightarrow>
            study_id d = Some (NumArray [1, 1, 2, 3]) \<and> obs d = NumArray [v1, v3, v2, v0])"
proof -
  let ?row = "row_at obs0 obs_se0 alt_dorms0 ref_dorms0 (Some (NumArray s))
    (covs_after_intercept covs0 add_intercept0 (nd_size obs0))"
  note g = CWData_init_rows [OF assms(1)]
  have r: "rows_of d = map ?row (argsort s)"
    and i: "study_id d = Some (NumArray (map (\<lambda>i. s ! i) (argsort s)))"
    and v: "obs d = nd_pick obs0 (argsort s)"
    and n: "length s = nd_size obs0"
    using g by simp_all
  have 1: "\<exists>s'. study_id d = Some (NumArray s') \<and> sorted s' \<and> mset s' = mset s"
    using i assms(2) is_argsort_mset [OF assms(2)] by (simp add: is_argsort_def)
  have 2: "filter (\<lambda>r. row_study_id r = Some (Num x)) (rows_of d) =
           filter (\<lambda>r. row_study_id r = Some (Num x))
             (rows obs0 obs_se0 alt_dorms0 ref_dorms0 (Some (NumArray s))
                (covs_after_intercept covs0 add_intercept0 (nd_size obs0)))"
    if "ties_in_order s (argsort s)" for x
  proof -
    have p: "argsort s = stable_argsort s"
      using stable_argsort_unique [OF assms(2) that] by simp
    have "filter (\<lambda>r. row_study_id r = Some (Num x)) (rows_of d) =
          map ?row (filter (\<lambda>i. s ! i = x) (stable_argsort s))"
      unfolding r p by (rule rows_with_study_id)
    also have "\<dots> = map ?row (filter (\<lambda>i. s ! i = x) [0..<length s])"
      by (simp only: stable_argsort_ties)
    also have "\<dots> = filter (\<lambda>r. row_study_id r = Some (Num x)) (map ?row [0..<length s])"
      by (rule rows_with_study_id [symmetric])
    finally show ?thesis
      by (simp add: rows_def n)
  qed
  have 3: "study_id d = Some (NumArray [1, 1, 2, 3]) \<and> obs d = NumArray [v1, v3, v2, v0]"
    if "ties_in_order s (argsort s) \<and> s = [3, 1, 2, 1] \<and> obs0 = NumArray [v0, v1, v2, v3]"
  proof -
    from that have t: "ties_in_order s (argsort s)" and e: "s = [3, 1, 2, 1]"
      "obs0 = NumArray [v0, v1, v2, v3]"
      by blast+
    have "argsort [3, 1, 2, 1] = stable_argsort [3, 1, 2, 1]"
      using stable_argsort_unique [OF assms(2) t] unfolding e(1) by simp
    also have "\<dots> = [1, 3, 2, 0]"
      by (simp add: stable_argsort_def upt_rec)
    finally have p: "argsort [3, 1, 2, 1] = [1, 3, 2, 0]" .
    from i v show ?thesis
      unfolding e by (simp add: p)
  qed
  from 1 2 3 show ?thesis
    by blast
qed

text \<open>An instance: the example of the claim, with the stable sorting function.\<close>

theorem C2_sorted_by_study_id_witness:
  "is_argsort [3, 1, 2, 1] (stable_argsort [3, 1, 2, 1]) \<and>
   ties_in_order [3, 1, 2, 1] (stable_argsort [3, 1, 2, 1]) \<and>
   map_sum id study_id
     (result (CWData_init stable_argsort (NumArray [10, 11, 12, 13]) (NumArray [1, 1, 1, 1])
        [''a'', ''b'', ''a'', ''b''] [''b'', ''a'', ''b'', ''a''] None
        (Some (NumArray [3, 1, 2, 1])) True)) = Inr (Some (NumArray [1, 1, 2, 3])) \<and>
   map_sum id obs
     (result (CWData_init stable_argsort (NumArray [10, 11, 12, 13]) (NumArray [1, 1, 1, 1])
        [''a'', ''b'', ''a'', ''b''] [''b'', ''a'', ''b'', ''a''] None
        (Some (NumArray [3, 1, 2, 1])) True)) = Inr (NumArray [11, 13, 12, 10])"
proof -
  define out where "out = CWData_init stable_argsort (NumArray [10, 11, 12, 13]) (NumArray [1, 1, 1, 1])
        [''a'', ''b'', ''a'', ''b''] [''b'', ''a'', ''b'', ''a''] None
        (Some (NumArray [3, 1, 2, 1])) True"
  have "\<exists>d. result out = Inr d"
    unfolding out_def by (simp add: run_defs)
  then obtain d where d: "result out = Inr d"
    by blast
  have a: "is_argsort [3, 1, 2, 1] (stable_argsort [3, 1, 2, 1])"
    by (simp add: is_argsort_def stable_argsort_def upt_rec)
  have t: "ties_in_order [3, 1, 2, 1] (stable_argsort [3, 1, 2, 1])"
    by (simp add: ties_in_order_def stable_argsort_def upt_rec)
  from C2_sorted_by_study_id [OF d [unfolded out_def] a, of 10 11 12 13] t
  have "study_id d = Some (NumArray [1, 1, 2, 3]) \<and> obs d = NumArray [11, 13, 12, 10]"
    by blast
  with a t d show ?thesis
    unfolding out_def [symmetric] by simp
qed

text \<open>
  The claim as it is written fails where \<^verbatim>\<open>np.argsort\<close> returns the positions of equal ids
  out of order. For \<open>study_id = [2, 2, 0, 1]\<close> the two sequences of positions that sort it
  are \<open>[2, 3, 0, 1]\<close> and \<open>[2, 3, 1, 0]\<close>, and the default kind can return the second one:
  builds of numpy that sort with AVX-512 vector instructions do. The sorting function below is the
  stable one with that value at that array. The object is sorted by \<open>study_id\<close>, and of
  the two records of study 2 the one supplied second comes first.
\<close>

theorem C2_ties_not_in_original_order:
  "is_argsort [2, 2, 0, 1] ((stable_argsort([2, 2, 0, 1] := [2, 3, 1, 0])) [2, 2, 0, 1]) \<and>
   map_sum id study_id
     (result (CWData_init (stable_argsort([2, 2, 0, 1] := [2, 3, 1, 0]))
        (NumArray [10, 11, 12, 13]) (NumArray [1, 1, 1, 1])
        [''a'', ''b'', ''a'', ''b''] [''b'', ''a'', ''b'', ''a''] None
        (Some (NumArray [2, 2, 0, 1])) True)) = Inr (Some (NumArray [0, 1, 2, 2])) \<and>
   map_sum id obs
     (result (CWData_init (stable_argsort([2, 2, 0, 1] := [2, 3, 1, 0]))
        (NumArray [10, 11, 12, 13]) (NumArray [1, 1, 1, 1])
        [''a'', ''b'', ''a'', ''b''] [''b'', ''a'', ''b'', ''a''] None
        (Some (NumArray [2, 2, 0, 1])) True)) = Inr (NumArray [12, 13, 11, 10])"
proof -
  have "sort [2, 3, 1, 0 :: nat] = [0, 1, 2, 3]"
    by simp
  then have "mset [2, 3, 1, 0 :: nat] = mset [0, 1, 2, 3]"
    by (metis mset_sort)
  then have a: "is_argsort [2, 2, 0, 1] [2, 3, 1, 0]"
    by (simp add: is_argsort_def upt_rec eval_nat_numeral)
  have b: "map_sum id (\<lambda>d. (study_id d, obs d))
     (result (CWData_init (stable_argsort([2, 2, 0, 1] := [2, 3, 1, 0]))
        (NumArray [10, 11, 12, 13]) (NumArray [1, 1, 1, 1])
        [''a'', ''b'', ''a'', ''b''] [''b'', ''a'', ''b'', ''a''] None
        (Some (NumArray [2, 2, 0, 1])) True)) =
     Inr (Some (NumArray [0, 1, 2, 2]), NumArray [12, 13, 11, 10])"
    by (simp add: run_defs)
  from a b show ?thesis
    by (auto simp: map_sum_def split: sum.splits)
qed

subsection \<open>C3\<close>

text \<open>
  Claim C3. Every standard error of a constructed object is strictly positive, and an
  array of standard errors with an entry that is not positive makes the constructor
  fail with the assertion error of \<^verbatim>\<open>check\<close>.
\<close>

theorem C3_standard_error_positive:
  "(result (CWData_init argsort obs0 obs_se0 alt_dorms0 ref_dorms0 covs0 study_id0
      add_intercept0) = Inr d \<longrightarrow>
    (\<exists>ses. obs_se d = NumArray ses \<and> list_all (\<lambda>x. 0 < x) ses)) \<and>
   (obs_se0 = NumArray ses0 \<and> list_ex (\<lambda>x. x \<le> 0) ses0 \<longrightarrow>
    result (CWData_init argsort obs0 obs_se0 alt_dorms0 ref_dorms0 covs0 study_id0
      add_intercept0) = Inl AssertionError)"
proof (intro conjI impI)
  assume "result (CWData_init argsort obs0 obs_se0 alt_dorms0 ref_dorms0 covs0 study_id0
      add_intercept0) = Inr d"
  then have "all_positive (obs_se d)"
    by (rule CWData_init_obs_se_positive)
  then show "\<exists>ses. obs_se d = NumArray ses \<and> list_all (\<lambda>x. 0 < x) ses"
    by (cases "obs_se d") simp_all
next
  assume a: "obs_se0 = NumArray ses0 \<and> list_ex (\<lambda>x. x \<le> 0) ses0"
  then have "\<not> all_positive obs_se0"
    using not_all_positive [of ses0] by blast
  then have "check obs0 obs_se0 alt_dorms0 ref_dorms0
      (covs_after_intercept covs0 add_intercept0 (nd_size obs0))
      (length (covs_after_intercept covs0 add_intercept0 (nd_size obs0))) study_id0
      (nd_size obs0) \<noteq> Inr ()"
    by (simp add: check_Inr_iff)
  from init_structures_check_failed [OF this]
  have "result (init_structures obs0 obs_se0 alt_dorms0 ref_dorms0 covs0 study_id0
      add_intercept0) = Inl AssertionError"
    by simp
  then show "result (CWData_init argsort obs0 obs_se0 alt_dorms0 ref_dorms0 covs0 study_id0
      add_intercept0) = Inl AssertionError"
    by (simp add: CWData_init_Inl)
qed

text \<open>
  Two instances: a construction with a \<open>study_id\<close> that succeeds, and the same input with
  the second standard error set to 0.
\<close>

theorem C3_standard_error_positive_witness:
  "map_sum id obs_se (result (CWData_init stable_argsort (NumArray [10, 11, 12])
      (NumArray [0.3, 0.1, 0.2]) [''a'', ''b'', ''a''] [''b'', ''b'', ''a''] None
      (Some (NumArray [2, 1, 2])) True)) = Inr (NumArray [0.1, 0.3, 0.2]) \<and>
   list_all (\<lambda>x. 0 < x) [0.1, 0.3, 0.2 :: real] \<and>
   list_ex (\<lambda>x. x \<le> 0) [0.3, 0, 0.2 :: real] \<and>
   result (CWData_init stable_argsort (NumArray [10, 11, 12])
      (NumArray [0.3, 0, 0.2]) [''a'', ''b'', ''a''] [''b'', ''b'', ''a''] None
      (Some (NumArray [2, 1, 2])) True) = Inl AssertionError"
proof -
  define out where "out = CWData_init stable_argsort (NumArray [10, 11, 12])
      (NumArray [0.3, 0.1, 0.2]) [''a'', ''b'', ''a''] [''b'', ''b'', ''a''] None
      (Some (NumArray [2, 1, 2])) True"
  have r: "map_sum id obs_se (result out) = Inr (NumArray [0.1, 0.3, 0.2])"
    unfolding out_def by (simp add: run_defs)
  then obtain d where d: "result out = Inr d"
    by (cases "result out") auto
  have bad: "list_ex (\<lambda>x. x \<le> 0) [0.3, 0, 0.2 :: real]"
    by simp
  from C3_standard_error_positive [of stable_argsort "NumArray [10, 11, 12]"
      "NumArray [0.3, 0.1, 0.2]" "[''a'', ''b'', ''a'']" "[''b'', ''b'', ''a'']" None
      "Some (NumArray [2, 1, 2])" True d] d
  have "\<exists>ses. obs_se d = NumArray ses \<and> list_all (\<lambda>x. 0 < x) ses"
    unfolding out_def by blast
  with r d have pos: "list_all (\<lambda>x. 0 < x) [0.1, 0.3, 0.2 :: real]"
    by auto
  from C3_standard_error_positive [of stable_argsort "NumArray [10, 11, 12]"
      "NumArray [0.3, 0, 0.2]" "[''a'', ''b'', ''a'']" "[''b'', ''b'', ''a'']" None
      "Some (NumArray [2, 1, 2])" True _ "[0.3, 0, 0.2]"] bad
  have fail: "result (CWData_init stable_argsort (NumArray [10, 11, 12])
      (NumArray [0.3, 0, 0.2]) [''a'', ''b'', ''a''] [''b'', ''b'', ''a''] None
      (Some (NumArray [2, 1, 2])) True) = Inl AssertionError"
    by blast
  from r pos bad fail show ?thesis
    unfolding out_def by blast
qed

subsection \<open>C4\<close>

text \<open>
  Claim C4, as the code has it. \<^verbatim>\<open>covs.update\<close> replaces an entry named \<open>intercept\<close>: when
  the intercept is added (\<^verbatim>\<open>add_intercept\<close> true, or an empty dictionary), the object's
  \<open>intercept\<close> covariate is the column of ones whatever the caller had put under that
  name. Every other covariate, and every covariate when no intercept is added, has the
  caller's values, read at the positions of the sort when there is a \<open>study_id\<close>. The
  dictionary that was passed is the object's dictionary, so the caller sees the same
  entries.
\<close>

theorem C4_intercept_column_replaced:
  assumes "result (CWData_init argsort obs0 obs_se0 alt_dorms0 ref_dorms0 (Some c) study_id0
             add_intercept0) = Inr d"
  shows "(if add_intercept0 \<or> c = []
          then map_of (covs d) intercept = Some (ones (nd_size (obs d)))
          else map_of (covs d) intercept =
            map_option (\<lambda>v. case study_id0 of None \<Rightarrow> v
                             | Some sid \<Rightarrow> nd_pick v (nd_argsort argsort sid))
              (map_of c intercept)) \<and>
         (\<forall>k. k \<noteq> intercept \<longrightarrow>
            map_of (covs d) k =
            map_option (\<lambda>v. case study_id0 of None \<Rightarrow> v
                             | Some sid \<Rightarrow> nd_pick v (nd_argsort argsort sid))
              (map_of c k)) \<and>
         caller_covs (CWData_init argsort obs0 obs_se0 alt_dorms0 ref_dorms0 (Some c) study_id0
             add_intercept0) = Some (covs d)"
proof -
  let ?n = "nd_size obs0"
  let ?re = "\<lambda>v. case study_id0 of None \<Rightarrow> v | Some sid \<Rightarrow> nd_pick v (nd_argsort argsort sid)"
  from CWData_init_Inr_cases [OF assms] obtain self where
    self: "result (init_structures obs0 obs_se0 alt_dorms0 ref_dorms0 (Some c) study_id0
       add_intercept0) = Inr self"
    and none: "study_id0 = None \<Longrightarrow> d = self"
    and some: "\<And>sid. study_id0 = Some sid \<Longrightarrow>
           d = sorted_object (nd_argsort argsort sid) sid self \<and>
           list_all (\<lambda>i. i < ?n) (nd_argsort argsort sid)"
    by blast
  note f = init_structures_Inr [OF self]
  have cs: "covs self = (if add_intercept0 \<or> c = [] then AList.update intercept (ones ?n) c else c)"
    using f(2) by (simp add: covs_after_intercept_Some)
  have covs_d: "map_of (covs d) k = map_option ?re (map_of (covs self) k)" for k
  proof (cases study_id0)
    case None
    with none show ?thesis by (simp add: option.map_ident)
  next
    case (Some sid)
    with some [OF Some] show ?thesis
      by (simp add: sorted_object_def map_of_picked)
  qed
  have size_d: "?re (ones ?n) = ones (nd_size (obs d))"
  proof (cases study_id0)
    case None
    with none f(3) show ?thesis by simp
  next
    case (Some sid)
    with some [OF Some] show ?thesis
      by (simp add: sorted_object_def nd_pick_ones)
  qed
  have 1: "map_of (covs d) intercept = Some (ones (nd_size (obs d)))"
    if "add_intercept0 \<or> c = []"
    using that covs_d [of intercept] cs size_d by (simp add: update_conv')
  have 2: "map_of (covs d) intercept = map_option ?re (map_of c intercept)"
    if "\<not> (add_intercept0 \<or> c = [])"
    using that covs_d [of intercept] cs by simp
  have 3: "map_of (covs d) k = map_option ?re (map_of c k)" if "k \<noteq> intercept" for k
    using that covs_d [of k] cs by (simp add: update_conv')
  from 1 2 3 CWData_init_caller_covs [OF assms] show ?thesis
    by simp
qed

text \<open>
  An instance: a caller's dictionary with an \<open>intercept\<close> column and a column \<open>x\<close>, sorted
  by \<open>study_id\<close>.
\<close>

theorem C4_intercept_column_replaced_witness:
  "map_sum id covs (result (CWData_init stable_argsort (NumArray [1, 2]) (NumArray [1, 1])
      [''a'', ''b''] [''b'', ''a'']
      (Some [(StrKey ''intercept'', NumArray [2, 3]), (StrKey ''x'', NumArray [4, 5])])
      (Some (NumArray [7, 6])) True)) =
     Inr [(StrKey ''intercept'', NumArray [1, 1]), (StrKey ''x'', NumArray [5, 4])] \<and>
   map_of [(StrKey ''intercept'', NumArray [1, 1]), (StrKey ''x'', NumArray [5, 4])] intercept =
     Some (ones 2) \<and>
   caller_covs (CWData_init stable_argsort (NumArray [1, 2]) (NumArray [1, 1])
      [''a'', ''b''] [''b'', ''a'']
      (Some [(StrKey ''intercept'', NumArray [2, 3]), (StrKey ''x'', NumArray [4, 5])])
      (Some (NumArray [7, 6])) True) =
     Some [(StrKey ''intercept'', NumArray [1, 1]), (StrKey ''x'', NumArray [5, 4])]"
proof -
  define out where "out = CWData_init stable_argsort (NumArray [1, 2]) (NumArray [1, 1])
      [''a'', ''b''] [''b'', ''a'']
      (Some [(StrKey ''intercept'', NumArray [2, 3]), (StrKey ''x'', NumArray [4, 5])])
      (Some (NumArray [7, 6])) True"
  have r: "map_sum id covs (result out) =
     Inr [(StrKey ''intercept'', NumArray [1, 1]), (StrKey ''x'', NumArray [5, 4])]"
    unfolding out_def by (simp add: run_defs)
  then obtain d where d: "result out = Inr d"
    by (cases "result out") auto
  with r have c: "covs d = [(StrKey ''intercept'', NumArray [1, 1]), (StrKey ''x'', NumArray [5, 4])]"
    by simp
  have s: "nd_size (obs d) = 2"
    using d unfolding out_def by (simp add: run_defs, auto)
  from C4_intercept_column_replaced [OF d [unfolded out_def]] c s d show ?thesis
    unfolding out_def [symmetric] by (simp add: intercept_def ones_def eval_nat_numeral)
qed

text \<open>
  The claim as it is written fails there: the caller's \<open>intercept\<close> column \<open>[2, 3]\<close> is not
  in the object, the column of ones is.
\<close>

theorem C4_caller_intercept_lost:
  "map_sum id covs (result (CWData_init stable_argsort (NumArray [1, 2]) (NumArray [1, 1])
      [''a'', ''b''] [''b'', ''a''] (Some [(StrKey ''intercept'', NumArray [2, 3])]) None True)) =
     Inr [(StrKey ''intercept'', NumArray [1, 1])]"
  by (simp add: run_defs)

subsection \<open>C5\<close>

text \<open>
  Claim C5, as the code has it. When an assertion of \<^verbatim>\<open>check\<close> fails the constructor raises
  \<^verbatim>\<open>AssertionError\<close> and no object is returned. The dictionary passed as \<^verbatim>\<open>covs\<close> is not
  left as it was: line 57 has already put the \<open>intercept\<close> entry into it when
  \<^verbatim>\<open>add_intercept\<close> is true or the dictionary was empty.
\<close>

theorem C5_rejected_after_intercept_step:
  assumes "check obs0 obs_se0 alt_dorms0 ref_dorms0
      (covs_after_intercept covs0 add_intercept0 (nd_size obs0))
      (length (covs_after_intercept covs0 add_intercept0 (nd_size obs0))) study_id0
      (nd_size obs0) \<noteq> Inr ()"
  shows "result (CWData_init argsort obs0 obs_se0 alt_dorms0 ref_dorms0 covs0 study_id0
           add_intercept0) = Inl AssertionError \<and>
         caller_covs (CWData_init argsort obs0 obs_se0 alt_dorms0 ref_dorms0 covs0 study_id0
           add_intercept0) =
           map_option (\<lambda>c. if add_intercept0 \<or> c = []
                            then AList.update intercept (ones (nd_size obs0)) c else c) covs0"
proof -
  have r: "result (init_structures obs0 obs_se0 alt_dorms0 ref_dorms0 covs0 study_id0
      add_intercept0) = Inl AssertionError"
    using init_structures_check_failed [OF assms] by simp
  have "caller_covs (init_structures obs0 obs_se0 alt_dorms0 ref_dorms0 covs0 study_id0
      add_intercept0) =
      map_option (\<lambda>c. if add_intercept0 \<or> c = []
                       then AList.update intercept (ones (nd_size obs0)) c else c) covs0"
    using init_structures_check_failed [OF assms]
    by (cases covs0) (simp_all add: covs_after_intercept_Some)
  with r show ?thesis
    by (simp add: CWData_init_Inl [OF r])
qed

text \<open>An instance: a standard error of \<open>-1\<close> and a caller's dictionary with one covariate.\<close>

theorem C5_rejected_after_intercept_step_witness:
  "check (NumArray [1]) (NumArray [- 1]) [''a''] [''b'']
      (covs_after_intercept (Some [(StrKey ''x'', NumArray [5])]) True 1)
      (length (covs_after_intercept (Some [(StrKey ''x'', NumArray [5])]) True 1)) None 1 \<noteq> Inr () \<and>
   caller_covs (CWData_init stable_argsort (NumArray [1]) (NumArray [- 1]) [''a''] [''b'']
      (Some [(StrKey ''x'', NumArray [5])]) None True) =
     Some [(StrKey ''x'', NumArray [5]), (StrKey ''intercept'', NumArray [1])]"
proof -
  have c: "check (NumArray [1]) (NumArray [- 1]) [''a''] [''b'']
      (covs_after_intercept (Some [(StrKey ''x'', NumArray [5])]) True (nd_size (NumArray [1])))
      (length (covs_after_intercept (Some [(StrKey ''x'', NumArray [5])]) True (nd_size (NumArray [1]))))
      None (nd_size (NumArray [1])) \<noteq> Inr ()"
    by (simp add: check_Inr_iff)
  from C5_rejected_after_intercept_step [OF c, of stable_argsort] c show ?thesis
    by (simp add: intercept_def ones_def)
qed

text \<open>
  The claim as it is written fails there: the construction is rejected and the caller's
  dictionary has changed.
\<close>

theorem C5_caller_covs_changed:
  "result (CWData_init stable_argsort (NumArray [1]) (NumArray [- 1]) [''a''] [''b'']
      (Some [(StrKey ''x'', NumArray [5])]) None True) = Inl AssertionError \<and>
   caller_covs (CWData_init stable_argsort (NumArray [1]) (NumArray [- 1]) [''a''] [''b'']
      (Some [(StrKey ''x'', NumArray [5])]) None True) \<noteq> Some [(StrKey ''x'', NumArray [5])]"
  by (simp add: run_defs)

subsection \<open>C6\<close>

text \<open>
  Claim C6. With no covariates (\<^verbatim>\<open>covs=None\<close> or an empty dictionary) and
  \<^verbatim>\<open>add_intercept=False\<close> the constructor does what it does with \<^verbatim>\<open>add_intercept=True\<close> and
  emits the warning. On arrays that pass \<^verbatim>\<open>check\<close> and are not empty it succeeds, and the
  covariates of the object are the one entry \<open>intercept\<close>, 1 at every observation.
\<close>

theorem C6_intercept_guarantee:
  assumes "covs0 = None \<or> covs0 = Some []"
    and "check obs0 obs_se0 alt_dorms0 ref_dorms0 [(intercept, ones (nd_size obs0))] 1
           study_id0 (nd_size obs0) = Inr ()"
    and "0 < nd_size obs0"
    and "argsort_ok argsort study_id0"
  shows "(\<exists>d. result (CWData_init argsort obs0 obs_se0 alt_dorms0 ref_dorms0 covs0 study_id0
              False) = Inr d \<and>
            covs d = [(intercept, ones (num_obs d))] \<and> num_covs d = 1 \<and>
            num_obs d = nd_size obs0 \<and> nd_size (obs d) = num_obs d) \<and>
         warnings (CWData_init argsort obs0 obs_se0 alt_dorms0 ref_dorms0 covs0 study_id0
              False) = [intercept_warning] \<and>
         CWData_init argsort obs0 obs_se0 alt_dorms0 ref_dorms0 covs0 study_id0 False =
           (CWData_init argsort obs0 obs_se0 alt_dorms0 ref_dorms0 covs0 study_id0 True)
             \<lparr>warnings := [intercept_warning]\<rparr>"
proof -
  let ?n = "nd_size obs0"
  have ca: "covs_after_intercept covs0 False ?n = [(intercept, ones ?n)]"
    using assms(1) by (auto simp: covs_after_intercept_None covs_after_intercept_Some)
  have chk: "check obs0 obs_se0 alt_dorms0 ref_dorms0 (covs_after_intercept covs0 False ?n)
      (length (covs_after_intercept covs0 False ?n)) study_id0 ?n = Inr ()"
    using assms(2) ca by simp
  from CWData_init_succeeds [OF chk assms(3,4)] obtain d where
    d: "result (CWData_init argsort obs0 obs_se0 alt_dorms0 ref_dorms0 covs0 study_id0
          False) = Inr d"
    by blast
  from CWData_init_Inr_cases [OF d] obtain self where
    self: "result (init_structures obs0 obs_se0 alt_dorms0 ref_dorms0 covs0 study_id0
       False) = Inr self"
    and none: "study_id0 = None \<Longrightarrow> d = self"
    and some: "\<And>sid. study_id0 = Some sid \<Longrightarrow>
           d = sorted_object (nd_argsort argsort sid) sid self \<and>
           list_all (\<lambda>i. i < ?n) (nd_argsort argsort sid)"
    by blast
  note f = init_structures_Inr [OF self]
  have cs: "covs self = [(intercept, ones ?n)]"
    using f(2) ca by simp
  have "covs d = [(intercept, ones (num_obs d))] \<and> num_covs d = 1 \<and>
        num_obs d = ?n \<and> nd_size (obs d) = num_obs d"
  proof (cases study_id0)
    case None
    with none f cs show ?thesis
      using assms(2) by (simp add: check_Inr_iff is_numerical_array_size)
  next
    case (Some sid)
    from chk Some have "is_numerical_array sid ?n"
      by (simp add: check_Inr_iff)
    then obtain s where s: "sid = NumArray s" "length s = ?n"
      by (cases sid) simp_all
    with assms(4) Some have "is_argsort s (argsort s)"
      by (simp add: argsort_ok_def)
    from is_argsort_length [OF this] s
    have len: "length (nd_argsort argsort sid) = ?n"
      by simp
    from some [OF Some] f(8,9) cs len show ?thesis
      by (simp add: sorted_object_def nd_pick_ones)
  qed
  with d have 1: "\<exists>d. result (CWData_init argsort obs0 obs_se0 alt_dorms0 ref_dorms0 covs0
      study_id0 False) = Inr d \<and> covs d = [(intercept, ones (num_obs d))] \<and> num_covs d = 1 \<and>
            num_obs d = nd_size obs0 \<and> nd_size (obs d) = num_obs d"
    by blast
  have 2: "warnings (CWData_init argsort obs0 obs_se0 alt_dorms0 ref_dorms0 covs0 study_id0
              False) = [intercept_warning]"
    using assms(1) by (auto simp: CWData_init_warnings add_intercept_step_empty)
  from 1 2 CWData_init_override [OF assms(1)] show ?thesis
    by blast
qed

text \<open>
  An instance: the arrays of the end-to-end example of the specification, an empty
  dictionary, \<^verbatim>\<open>add_intercept=False\<close>.
\<close>

theorem C6_intercept_guarantee_witness:
  "check (NumArray [0.1, - 0.2, 0.05]) (NumArray [0.01, 0.02, 0.015]) [''x'', ''y'', ''x'']
     [''y'', ''y'', ''x''] [(intercept, ones 3)] 1 (Some (NumArray [2, 1, 2])) 3 = Inr () \<and>
   argsort_ok stable_argsort (Some (NumArray [2, 1, 2])) \<and>
   map_sum id covs (result (CWData_init stable_argsort (NumArray [0.1, - 0.2, 0.05])
     (NumArray [0.01, 0.02, 0.015]) [''x'', ''y'', ''x''] [''y'', ''y'', ''x''] (Some [])
     (Some (NumArray [2, 1, 2])) False)) = Inr [(StrKey ''intercept'', NumArray [1, 1, 1])] \<and>
   warnings (CWData_init stable_argsort (NumArray [0.1, - 0.2, 0.05])
     (NumArray [0.01, 0.02, 0.015]) [''x'', ''y'', ''x''] [''y'', ''y'', ''x''] (Some [])
     (Some (NumArray [2, 1, 2])) False) = [intercept_warning]"
proof -
  have e: "Some [] = None \<or> Some [] = (Some [] :: covdict option)"
    by simp
  have c: "check (NumArray [0.1, - 0.2, 0.05]) (NumArray [0.01, 0.02, 0.015]) [''x'', ''y'', ''x'']
     [''y'', ''y'', ''x''] [(intercept, ones (nd_size (NumArray [0.1, - 0.2, 0.05])))] 1
     (Some (NumArray [2, 1, 2])) (nd_size (NumArray [0.1, - 0.2, 0.05])) = Inr ()"
    by (simp add: check_Inr_iff intercept_def ones_def)
  have p: "0 < nd_size (NumArray [0.1, - 0.2, 0.05])"
    by simp
  have a: "argsort_ok stable_argsort (Some (NumArray [2, 1, 2]))"
    by (simp add: argsort_ok_def is_argsort_def stable_argsort_def upt_rec)
  from C6_intercept_guarantee [OF e c p a] c a show ?thesis
    by (auto simp: intercept_def ones_def eval_nat_numeral)
qed

subsection \<open>C7\<close>

text \<open>
  Claim C7. After a successful construction the keys of \<open>dorm_idx\<close>, in their order, are
  the sorted sequence of the distinct labels of \<open>alt_dorms\<close> and \<open>ref_dorms\<close> together, and
  the value of each key is its position in that sequence. For the labels
  \<open>[A, B, A]\<close> and \<open>[B, C, A]\<close> the index is \<open>{A: 0, B: 1, C: 2}\<close>, with the unique labels
  \<open>[A, B, C]\<close>, their counts \<open>[3, 2, 1]\<close> and 3 distinct labels.
\<close>

theorem C7_definition_index:
  assumes "result (CWData_init argsort obs0 obs_se0 alt_dorms0 ref_dorms0 covs0 study_id0
             add_intercept0) = Inr d"
  shows "map fst (dorm_idx d) = unique_dorms d \<and>
         sorted (unique_dorms d) \<and> distinct (unique_dorms d) \<and>
         set (unique_dorms d) = set alt_dorms0 \<union> set ref_dorms0 \<and>
         dom (map_of (dorm_idx d)) = set alt_dorms0 \<union> set ref_dorms0 \<and>
         (\<forall>i < length (unique_dorms d). map_of (dorm_idx d) (unique_dorms d ! i) = Some i) \<and>
         num_dorms d = length (unique_dorms d) \<and>
         dorm_sizes d = map (count_list (alt_dorms0 @ ref_dorms0)) (unique_dorms d) \<and>
         (alt_dorms0 = [''A'', ''B'', ''A''] \<and> ref_dorms0 = [''B'', ''C'', ''A''] \<longrightarrow>
            dorm_idx d = [(''A'', 0), (''B'', 1), (''C'', 2)] \<and>
            unique_dorms d = [''A'', ''B'', ''C''] \<and> dorm_sizes d = [3, 2, 1] \<and>
            num_dorms d = 3)"
proof -
  note g = CWData_init_dorms [OF assms]
  have u: "sorted (unique_dorms d)" "distinct (unique_dorms d)"
    "set (unique_dorms d) = set alt_dorms0 \<union> set ref_dorms0"
    using g(1) unique_sorted_props [of "alt_dorms0 @ ref_dorms0"] by simp_all
  have keys: "map fst (dorm_idx d) = unique_dorms d"
    using g(4) by (simp add: enumerate_idx_keys)
  have dom: "dom (map_of (dorm_idx d)) = set alt_dorms0 \<union> set ref_dorms0"
    using g(4) u(3) by (simp add: enumerate_idx_def)
  have rank: "\<forall>i < length (unique_dorms d). map_of (dorm_idx d) (unique_dorms d ! i) = Some i"
    using g(4) u(2) by (simp add: enumerate_idx_lookup)
  have ex: "dorm_idx d = [(''A'', 0), (''B'', 1), (''C'', 2)] \<and>
            unique_dorms d = [''A'', ''B'', ''C''] \<and> dorm_sizes d = [3, 2, 1] \<and>
            num_dorms d = 3"
    if "alt_dorms0 = [''A'', ''B'', ''A''] \<and> ref_dorms0 = [''B'', ''C'', ''A'']"
  proof -
    have "unique_dorms d = [''A'', ''B'', ''C'']"
      using g(1) that by (simp add: unique_sorted_def)
    with g(2,3,4) that show ?thesis
      by (simp add: enumerate_idx_def upt_rec)
  qed
  from keys u dom rank g(2,3) ex show ?thesis
    by blast
qed

text \<open>An instance: the labels of the example, with a \<open>study_id\<close>.\<close>

theorem C7_definition_index_witness:
  "map_sum id (\<lambda>d. (dorm_idx d, unique_dorms d, dorm_sizes d, num_dorms d))
     (result (CWData_init stable_argsort (NumArray [1, 2, 3]) (NumArray [1, 1, 1])
        [''A'', ''B'', ''A''] [''B'', ''C'', ''A''] None (Some (NumArray [5, 4, 5])) True)) =
   Inr ([(''A'', 0), (''B'', 1), (''C'', 2)], [''A'', ''B'', ''C''], [3, 2, 1], 3)"
proof -
  define out where "out = CWData_init stable_argsort (NumArray [1, 2, 3]) (NumArray [1, 1, 1])
        [''A'', ''B'', ''A''] [''B'', ''C'', ''A''] None (Some (NumArray [5, 4, 5])) True"
  have "\<exists>d. result out = Inr d"
    unfolding out_def by (simp add: run_defs)
  then obtain d where d: "result out = Inr d"
    by blast
  from C7_definition_index [OF d [unfolded out_def]] d show ?thesis
    unfolding out_def [symmetric] by simp
qed

subsection \<open>C8\<close>

text \<open>
  Claim C8. Without \<open>study_id\<close> a successful construction over \<open>n\<close> observations has
  \<open>num_studies = n\<close>, every study size 1, and no sort: the observations, standard errors
  and labels are the sequences that were supplied, in their order, and the covariates
  are the dictionary as line 57 left it.
\<close>

theorem C8_singleton_studies:
  assumes "result (CWData_init argsort obs0 obs_se0 alt_dorms0 ref_dorms0 covs0 None
             add_intercept0) = Inr d"
  shows "num_obs d = nd_size obs0 \<and> num_studies d = nd_size obs0 \<and>
         study_sizes d = replicate (nd_size obs0) 1 \<and> unique_study_id d = None \<and>
         study_id d = None \<and>
         obs d = obs0 \<and> obs_se d = obs_se0 \<and>
         alt_dorms d = alt_dorms0 \<and> ref_dorms d = ref_dorms0 \<and>
         covs d = covs_after_intercept covs0 add_intercept0 (nd_size obs0)"
proof -
  from CWData_init_Inr_D [OF assms] obtain self where
    self: "result (init_structures obs0 obs_se0 alt_dorms0 ref_dorms0 covs0 None
             add_intercept0) = Inr self"
    and sort: "sort_by_study_id argsort self = (d, None)"
    by blast
  have "study_id self = None"
    by (rule init_structures_Inr(7) [OF self])
  then have "d = self"
    using sort by (simp add: sort_by_study_id_no_study)
  then show ?thesis
    using init_structures_Inr [OF self] by simp
qed

text \<open>An instance: three observations, the default covariates, no \<open>study_id\<close>.\<close>

theorem C8_singleton_studies_witness:
  "map_sum id (\<lambda>d. (num_studies d, study_sizes d, obs d, alt_dorms d))
     (result (CWData_init stable_argsort (NumArray [0.1, - 0.2, 0.05])
        (NumArray [0.01, 0.02, 0.015]) [''x'', ''y'', ''x''] [''y'', ''y'', ''x''] None None True)) =
   Inr (3, [1, 1, 1], NumArray [0.1, - 0.2, 0.05], [''x'', ''y'', ''x''])"
proof -
  define out where "out = CWData_init stable_argsort (NumArray [0.1, - 0.2, 0.05])
        (NumArray [0.01, 0.02, 0.015]) [''x'', ''y'', ''x''] [''y'', ''y'', ''x''] None None True"
  have "\<exists>d. result out = Inr d"
    unfolding out_def by (simp add: run_defs)
  then obtain d where d: "result out = Inr d"
    by blast
  from C8_singleton_studies [OF d [unfolded out_def]] show ?thesis
    unfolding out_def [symmetric] d by simp
qed

subsection \<open>C9\<close>

text \<open>
  Claim C9. With a \<open>study_id\<close>, one sequence of positions \<open>p\<close>, a permutation of the
  positions \<open>0, ..., num_obs - 1\<close>, is used to read \<open>study_id\<close>, \<open>obs\<close>, \<open>obs_se\<close>, both label
  arrays and every covariate. The record at position \<open>j\<close> of the object is the record at
  position \<open>p[j]\<close> of the input, so the records are the same as a multiset, and every
  sequence of the object has length \<open>num_obs\<close>.
\<close>

theorem C9_lock_step_permutation:
  assumes "result (CWData_init argsort obs0 obs_se0 alt_dorms0 ref_dorms0 covs0 (Some sid)
             add_intercept0) = Inr d"
    and "argsort_ok argsort (Some sid)"
  shows "\<exists>p. mset p = mset [0..<nd_size obs0] \<and>
           study_id d = Some (nd_pick sid p) \<and>
           obs d = nd_pick obs0 p \<and> obs_se d = nd_pick obs_se0 p \<and>
           alt_dorms d = map (\<lambda>i. alt_dorms0 ! i) p \<and>
           ref_dorms d = map (\<lambda>i. ref_dorms0 ! i) p \<and>
           covs d = map (\<lambda>(k, v). (k, nd_pick v p))
             (covs_after_intercept covs0 add_intercept0 (nd_size obs0)) \<and>
           rows_of d = map (row_at obs0 obs_se0 alt_dorms0 ref_dorms0 (Some sid)
             (covs_after_intercept covs0 add_intercept0 (nd_size obs0))) p \<and>
           mset (rows_of d) = mset (rows obs0 obs_se0 alt_dorms0 ref_dorms0 (Some sid)
             (covs_after_intercept covs0 add_intercept0 (nd_size obs0))) \<and>
           num_obs d = nd_size obs0 \<and>
           nd_size (obs d) = num_obs d \<and> nd_size (obs_se d) = num_obs d \<and>
           length (alt_dorms d) = num_obs d \<and> length (ref_dorms d) = num_obs d \<and>
           map_option nd_size (study_id d) = Some (num_obs d) \<and>
           list_all (\<lambda>(k, v). nd_size v = num_obs d) (covs d)"
proof -
  let ?n = "nd_size obs0"
  let ?p = "nd_argsort argsort sid"
  let ?c = "covs_after_intercept covs0 add_intercept0 ?n"
  from CWData_init_Inr_cases [OF assms(1)] obtain self where
    self: "result (init_structures obs0 obs_se0 alt_dorms0 ref_dorms0 covs0 (Some sid)
       add_intercept0) = Inr self"
    and d: "d = sorted_object ?p sid self"
    by blast
  note f = init_structures_Inr [OF self]
  from f(1) have "is_numerical_array sid ?n"
    by (simp add: check_Inr_iff)
  then obtain s where s: "sid = NumArray s" "length s = ?n"
    by (cases sid) simp_all
  with assms(2) have a: "is_argsort s (argsort s)"
    by (simp add: argsort_ok_def)
  then have perm: "mset ?p = mset [0..<?n]"
    using s by (simp add: is_argsort_def)
  have len: "length ?p = ?n"
    using is_argsort_length [OF a] s by simp
  have fields: "study_id d = Some (nd_pick sid ?p)" "obs d = nd_pick obs0 ?p"
    "obs_se d = nd_pick obs_se0 ?p" "alt_dorms d = map (\<lambda>i. alt_dorms0 ! i) ?p"
    "ref_dorms d = map (\<lambda>i. ref_dorms0 ! i) ?p"
    "covs d = map (\<lambda>(k, v). (k, nd_pick v ?p)) ?c" "num_obs d = ?n"
    using d f(2-8) by (simp_all add: sorted_object_def)
  have r: "rows_of d = map (row_at obs0 obs_se0 alt_dorms0 ref_dorms0 (Some sid) ?c) ?p"
    unfolding rows_of_def fields by (rule rows_picked)
  have m: "mset (rows_of d) = mset (rows obs0 obs_se0 alt_dorms0 ref_dorms0 (Some sid) ?c)"
    unfolding r rows_def by (rule mset_map_positions [OF perm])
  have sizes: "nd_size (obs d) = num_obs d" "nd_size (obs_se d) = num_obs d"
    "length (alt_dorms d) = num_obs d" "length (ref_dorms d) = num_obs d"
    "map_option nd_size (study_id d) = Some (num_obs d)"
    using fields len by simp_all
  have cv: "list_all (\<lambda>(k, v). nd_size v = num_obs d) (covs d)"
    using covs_picked_sizes [of ?p ?c] fields(6,7) len by simp
  from perm fields r m sizes cv show ?thesis
    by blast
qed

text \<open>
  An instance: four observations with one covariate and the \<open>study_id\<close> \<open>[3, 1, 2, 1]\<close>.
\<close>

theorem C9_lock_step_permutation_witness:
  "argsort_ok stable_argsort (Some (NumArray [3, 1, 2, 1])) \<and>
   map_sum id (\<lambda>d. (mset (rows_of d), nd_size (obs d), list_all (\<lambda>(k, v). nd_size v = num_obs d) (covs d)))
     (result (CWData_init stable_argsort (NumArray [10, 11, 12, 13]) (NumArray [1, 2, 3, 4])
        [''a'', ''b'', ''a'', ''c''] [''b'', ''b'', ''a'', ''a'']
        (Some [(StrKey ''x'', NumArray [5, 6, 7, 8])]) (Some (NumArray [3, 1, 2, 1])) True)) =
   Inr (mset (rows (NumArray [10, 11, 12, 13]) (NumArray [1, 2, 3, 4])
        [''a'', ''b'', ''a'', ''c''] [''b'', ''b'', ''a'', ''a''] (Some (NumArray [3, 1, 2, 1]))
        (covs_after_intercept (Some [(StrKey ''x'', NumArray [5, 6, 7, 8])]) True
           (nd_size (NumArray [10, 11, 12, 13])))), 4, True)"
proof -
  define out where "out = CWData_init stable_argsort (NumArray [10, 11, 12, 13]) (NumArray [1, 2, 3, 4])
        [''a'', ''b'', ''a'', ''c''] [''b'', ''b'', ''a'', ''a'']
        (Some [(StrKey ''x'', NumArray [5, 6, 7, 8])]) (Some (NumArray [3, 1, 2, 1])) True"
  have "\<exists>d. result out = Inr d"
    unfolding out_def by (simp add: run_defs)
  then obtain d where d: "result out = Inr d"
    by blast
  have a: "argsort_ok stable_argsort (Some (NumArray [3, 1, 2, 1]))"
    by (simp add: argsort_ok_def is_argsort_def stable_argsort_def upt_rec)
  from C9_lock_step_permutation [OF d [unfolded out_def] a] obtain p where
    m: "mset (rows_of d) = mset (rows (NumArray [10, 11, 12, 13]) (NumArray [1, 2, 3, 4])
        [''a'', ''b'', ''a'', ''c''] [''b'', ''b'', ''a'', ''a''] (Some (NumArray [3, 1, 2, 1]))
        (covs_after_intercept (Some [(StrKey ''x'', NumArray [5, 6, 7, 8])]) True
           (nd_size (NumArray [10, 11, 12, 13]))))"
    and n: "num_obs d = nd_size (NumArray [10, 11, 12, 13])" "nd_size (obs d) = num_obs d"
    and c: "list_all (\<lambda>(k, v). nd_size v = num_obs d) (covs d)"
    by blast
  have "map_sum id (\<lambda>d. (mset (rows_of d), nd_size (obs d),
      list_all (\<lambda>(k, v). nd_size v = num_obs d) (covs d))) (result out) =
    Inr (mset (rows_of d), nd_size (obs d), list_all (\<lambda>(k, v). nd_size v = num_obs d) (covs d))"
    by (simp add: d)
  also have "\<dots> = Inr (mset (rows (NumArray [10, 11, 12, 13]) (NumArray [1, 2, 3, 4])
        [''a'', ''b'', ''a'', ''c''] [''b'', ''b'', ''a'', ''a''] (Some (NumArray [3, 1, 2, 1]))
        (covs_after_intercept (Some [(StrKey ''x'', NumArray [5, 6, 7, 8])]) True
           (nd_size (NumArray [10, 11, 12, 13])))), 4, True)"
    unfolding m using n c by simp
  finally show ?thesis
    unfolding out_def using a by blast
qed

subsection \<open>C10\<close>

text \<open>
  Claim C10. Constructing from empty inputs fails: when \<open>num_obs\<close> is 0 and every assertion
  of \<^verbatim>\<open>check\<close> holds, the constructor raises \<^verbatim>\<open>ValueError\<close>, because \<^verbatim>\<open>np.argmax\<close> is
  asked for the extremum of an empty sequence of group sizes.
\<close>

theorem C10_empty_inputs_rejected:
  assumes "nd_size obs0 = 0"
    and "check obs0 obs_se0 alt_dorms0 ref_dorms0 (covs_after_intercept covs0 add_intercept0 0)
           (length (covs_after_intercept covs0 add_intercept0 0)) study_id0 0 = Inr ()"
  shows "result (CWData_init argsort obs0 obs_se0 alt_dorms0 ref_dorms0 covs0 study_id0
           add_intercept0) = Inl ValueError"
proof -
  have "result (init_structures obs0 obs_se0 alt_dorms0 ref_dorms0 covs0 study_id0
          add_intercept0) = Inl ValueError"
    using assms init_structures_empty [of obs0 obs_se0 alt_dorms0 ref_dorms0 covs0 add_intercept0 study_id0]
    by simp
  then show ?thesis
    by (simp add: CWData_init_Inl)
qed

text \<open>An instance: empty arrays, one empty covariate and an empty \<open>study_id\<close>.\<close>

theorem C10_empty_inputs_rejected_witness:
  "nd_size (NumArray []) = 0 \<and>
   check (NumArray []) (NumArray []) [] [] (covs_after_intercept (Some [(StrKey ''x'', NumArray [])]) True 0)
     (length (covs_after_intercept (Some [(StrKey ''x'', NumArray [])]) True 0)) (Some (NumArray [])) 0 = Inr () \<and>
   result (CWData_init stable_argsort (NumArray []) (NumArray []) [] []
     (Some [(StrKey ''x'', NumArray [])]) (Some (NumArray [])) True) = Inl ValueError"
proof -
  have a: "nd_size (NumArray []) = 0" by simp
  have b: "check (NumArray []) (NumArray []) [] [] (covs_after_intercept (Some [(StrKey ''x'', NumArray [])]) True 0)
     (length (covs_after_intercept (Some [(StrKey ''x'', NumArray [])]) True 0)) (Some (NumArray [])) 0 = Inr ()"
    by (simp add: check_def covs_after_intercept_def add_intercept_step_def intercept_def ones_def)
  show ?thesis
    using a b C10_empty_inputs_rejected [OF a b, of stable_argsort] by simp
qed

end
